theory Spec2Isabelle
  imports Complex_Main "HOL-Library.Multiset"
begin

section \<open>Rank of neural Hessians: the notebook \<open>hessian_rank.ipynb\<close>\<close>

text \<open>
  The notebook is a straight-line script of cells.  Every cell is modelled as a function
  from the variables it reads to the variables it binds.  Python integers are \<open>int\<close>;
  the integers of the array library are signed 64-bit integers, modelled as \<open>int\<close> with
  the wrap-around written out.  The entries of floating-point arrays are real numbers,
  and every array operation rounds the entries of its exact result with the rounding
  function of the array library, a parameter of the model: \<open>binary64\<close> is the rounding
  of the source, which runs in double precision, and \<open>exact\<close> is no rounding at all.
  Infinities and NaN are not modelled.
\<close>

subsection \<open>Failures\<close>

datatype error =
    NameError string          \<comment> \<open>a Python name that was never bound\<close>
  | IncompatibleShapes        \<comment> \<open>broadcasting of two array shapes failed\<close>
  | ZeroSizeReduction         \<comment> \<open>a minimum or maximum over an array without elements\<close>
  | OverflowError             \<comment> \<open>a Python integer that does not fit into 64 bits\<close>
  | NegativeDimension         \<comment> \<open>an array shape with a negative entry\<close>
  | Collaborator string       \<comment> \<open>a failure raised inside an imported module\<close>

definition bind_e :: "error + 'a \<Rightarrow> ('a \<Rightarrow> error + 'b) \<Rightarrow> error + 'b" where
  "bind_e m f = (case m of Inl e \<Rightarrow> Inl e | Inr x \<Rightarrow> f x)"

subsection \<open>64-bit integers\<close>

text \<open>
  The notebook switches the array library to 64-bit mode.  A Python integer that enters
  an array or an array operation is converted to a signed 64-bit integer, which fails
  when it does not fit; the result of an operation on 64-bit integers wraps around.
\<close>

definition int64 :: "int \<Rightarrow> bool" where
  "int64 x \<longleftrightarrow> - (2 ^ 63) \<le> x \<and> x < 2 ^ 63"

definition wrap64 :: "int \<Rightarrow> int" where
  "wrap64 x = (x + 2 ^ 63) mod 2 ^ 64 - 2 ^ 63"

definition to_int64 :: "int \<Rightarrow> error + int" where
  "to_int64 x = (if int64 x then Inr x else Inl OverflowError)"

text \<open>Two integers that agree modulo \<open>2\<^sup>6\<^sup>4\<close>: they wrap to the same 64-bit integer.\<close>

definition eq64 :: "int \<Rightarrow> int \<Rightarrow> bool" where
  "eq64 a b \<longleftrightarrow> a mod 2 ^ 64 = b mod 2 ^ 64"

text \<open>\<open>jnp.array(xs)\<close> for a list of integers: every element is converted.\<close>

fun jnp_array :: "int list \<Rightarrow> error + int list" where
  "jnp_array [] = Inr []"
| "jnp_array (x # xs) =
     bind_e (to_int64 x) (\<lambda>y. bind_e (jnp_array xs) (\<lambda>ys. Inr (y # ys)))"

subsection \<open>Cell 17: the bound predictor\<close>

text \<open>\<open>jnp.min(a)\<close>: a left-to-right reduction with \<open>min\<close>.\<close>

fun jnp_min :: "int list \<Rightarrow> error + int" where
  "jnp_min [] = Inl ZeroSizeReduction"
| "jnp_min (x # xs) = Inr (fold min xs x)"

record predictions =
  s :: int
  q :: int
  pred_F :: int
  pred_outer :: int
  pred_L :: int

text \<open>
  \<^verbatim>\<open>
  s = jnp.min(jnp.array([rank_cov, classes]))
  q = jnp.min(jnp.array([rank_cov, classes] + widths))
  pred_F = 2 * q * sum(widths) + 2 * q * s - (len(widths)+1) * q**2
  pred_outer = (rank_cov + classes - q) * q
  pred_L = pred_F + pred_outer + q * (q - 2 * s)
  \<close>
  \<open>rank_cov\<close> is a 64-bit integer of the array library, \<open>classes\<close> and the widths are
  Python integers, and so are \<open>sum(widths)\<close> and \<open>len(widths)+1\<close>, which are converted
  when they meet \<open>q\<close>.  \<open>s\<close>, \<open>q\<close> and the three predictions are 64-bit integers: the
  result of every operation is wrapped, in the order in which Python evaluates the
  expressions.
\<close>

definition bound_predictor :: "int \<Rightarrow> int \<Rightarrow> int list \<Rightarrow> error + predictions" where
  "bound_predictor rank_cov classes widths =
     bind_e (jnp_array [rank_cov, classes]) (\<lambda>a.
     bind_e (jnp_min a) (\<lambda>s.
     bind_e (jnp_array ([rank_cov, classes] @ widths)) (\<lambda>a.
     bind_e (jnp_min a) (\<lambda>q.
     bind_e (to_int64 (sum_list widths)) (\<lambda>sum_widths.
     bind_e (to_int64 (int (length widths) + 1)) (\<lambda>layers.
       let pred_F = wrap64 (wrap64 (wrap64 (wrap64 (2 * q) * sum_widths) + wrap64 (wrap64 (2 * q) * s))
                            - wrap64 (layers * wrap64 (q\<^sup>2)));
           pred_outer = wrap64 (wrap64 (wrap64 (rank_cov + classes) - q) * q);
           pred_L = wrap64 (wrap64 (pred_F + pred_outer) + wrap64 (q * wrap64 (q - wrap64 (2 * s))))
       in Inr \<lparr>s = s, q = q, pred_F = pred_F, pred_outer = pred_outer, pred_L = pred_L\<rparr>))))))"

text \<open>
  \<^verbatim>\<open>
  if loss_name == 'cross':
      classes = classes - 1
  \<close>
  \<open>classes\<close> is a Python integer here: the decrement does not wrap.
\<close>

definition adjust_classes :: "string \<Rightarrow> int \<Rightarrow> int" where
  "adjust_classes loss_name classes = (if loss_name = ''cross'' then classes - 1 else classes)"

text \<open>The cell rebinds \<open>classes\<close> and binds the five predictor variables.\<close>

definition cell17 :: "string \<Rightarrow> int \<Rightarrow> int \<Rightarrow> int list \<Rightarrow> error + (int \<times> predictions)" where
  "cell17 loss_name rank_cov classes widths =
     (let classes = adjust_classes loss_name classes
      in bind_e (bound_predictor rank_cov classes widths) (\<lambda>P. Inr (classes, P)))"

text \<open>The operands that the predictor converts all fit into 64 bits.\<close>

definition representable :: "int \<Rightarrow> int \<Rightarrow> int list \<Rightarrow> bool" where
  "representable rank_cov classes widths \<longleftrightarrow>
     int64 rank_cov \<and> int64 classes \<and> list_all int64 widths \<and>
     int64 (sum_list widths) \<and> int64 (int (length widths) + 1)"


subsection \<open>Two-dimensional arrays\<close>

text \<open>
  An array carries its shape and its entries, row by row.  Every operation below builds
  its result with \<open>tabulate2\<close>, so a result has exactly \<open>nrows\<close> rows of \<open>ncols\<close>
  entries.  An operation takes the rounding function \<open>rnd\<close> of the array library and
  applies it to every entry of its exact result.  For the elementwise sum, difference
  and product this is what double precision prescribes; for the matrix product, the sum
  of all entries and the transcendental functions the library does not fix the order of
  its intermediate roundings, and the model rounds the exact value once.
\<close>

record matrix =
  nrows :: nat
  ncols :: nat
  rows :: "real list list"

definition tabulate2 :: "nat \<Rightarrow> nat \<Rightarrow> (nat \<Rightarrow> nat \<Rightarrow> real) \<Rightarrow> matrix" where
  "tabulate2 n m f = \<lparr>nrows = n, ncols = m, rows = map (\<lambda>i. map (f i) [0..<m]) [0..<n]\<rparr>"

definition entry :: "matrix \<Rightarrow> nat \<Rightarrow> nat \<Rightarrow> real" where
  "entry A i j = rows A ! i ! j"

definition well_shaped :: "matrix \<Rightarrow> bool" where
  "well_shaped A \<longleftrightarrow> length (rows A) = nrows A \<and> list_all (\<lambda>r. length r = ncols A) (rows A)"

text \<open>\<open>jnp.zeros(shape=(n, m))\<close>; a negative dimension is rejected.\<close>

definition jnp_zeros :: "int \<Rightarrow> int \<Rightarrow> error + matrix" where
  "jnp_zeros n m =
     (if n < 0 \<or> m < 0 then Inl NegativeDimension
      else Inr (tabulate2 (nat n) (nat m) (\<lambda>i j. 0)))"

text \<open>
  Elementwise binary operations broadcast: along each axis the two extents must agree or
  one of them must be 1, and an axis of extent 1 is read at index 0 throughout.
\<close>

definition broadcast_dim :: "nat \<Rightarrow> nat \<Rightarrow> error + nat" where
  "broadcast_dim a b =
     (if a = b then Inr a else if a = 1 then Inr b else if b = 1 then Inr a
      else Inl IncompatibleShapes)"

definition bidx :: "nat \<Rightarrow> nat \<Rightarrow> nat" where
  "bidx n i = (if n = 1 then 0 else i)"

definition elementwise :: "(real \<Rightarrow> real \<Rightarrow> real) \<Rightarrow> matrix \<Rightarrow> matrix \<Rightarrow> error + matrix" where
  "elementwise f A B =
     bind_e (broadcast_dim (nrows A) (nrows B)) (\<lambda>n.
     bind_e (broadcast_dim (ncols A) (ncols B)) (\<lambda>m.
       Inr (tabulate2 n m (\<lambda>i j.
         f (entry A (bidx (nrows A) i) (bidx (ncols A) j))
           (entry B (bidx (nrows B) i) (bidx (ncols B) j))))))"

definition madd :: "(real \<Rightarrow> real) \<Rightarrow> matrix \<Rightarrow> matrix \<Rightarrow> error + matrix" where
  "madd rnd = elementwise (\<lambda>x y. rnd (x + y))"

definition msub :: "(real \<Rightarrow> real) \<Rightarrow> matrix \<Rightarrow> matrix \<Rightarrow> error + matrix" where
  "msub rnd = elementwise (\<lambda>x y. rnd (x - y))"

definition mmul :: "(real \<Rightarrow> real) \<Rightarrow> matrix \<Rightarrow> matrix \<Rightarrow> error + matrix" where
  "mmul rnd = elementwise (\<lambda>x y. rnd (x * y))"

definition map_matrix :: "(real \<Rightarrow> real) \<Rightarrow> matrix \<Rightarrow> matrix" where
  "map_matrix f A = tabulate2 (nrows A) (ncols A) (\<lambda>i j. f (entry A i j))"

text \<open>\<open>A.T\<close> and \<open>A @ B\<close>.\<close>

definition mat_T :: "matrix \<Rightarrow> matrix" where
  "mat_T A = tabulate2 (ncols A) (nrows A) (\<lambda>i j. entry A j i)"

definition matmul :: "(real \<Rightarrow> real) \<Rightarrow> matrix \<Rightarrow> matrix \<Rightarrow> error + matrix" where
  "matmul rnd A B =
     (if ncols A = nrows B
      then Inr (tabulate2 (nrows A) (ncols B)
                  (\<lambda>i j. rnd (sum_list (map (\<lambda>k. entry A i k * entry B k j) [0..<ncols A]))))
      else Inl IncompatibleShapes)"

text \<open>\<open>jnp.sum(A)\<close>: the sum of all entries.\<close>

definition jnp_sum :: "(real \<Rightarrow> real) \<Rightarrow> matrix \<Rightarrow> real" where
  "jnp_sum rnd A = rnd (sum_list (map sum_list (rows A)))"

text \<open>
  \<open>logsoftmax\<close> of the library, along the last axis: every entry minus the logarithm of
  the sum of the exponentials of its row.
\<close>

definition logsoftmax :: "(real \<Rightarrow> real) \<Rightarrow> matrix \<Rightarrow> matrix" where
  "logsoftmax rnd A =
     tabulate2 (nrows A) (ncols A)
       (\<lambda>i j. rnd (entry A i j - ln (sum_list (map (\<lambda>k. exp (entry A i k)) [0..<ncols A]))))"

text \<open>
  The entry of \<open>A\<close> that broadcasting pairs with position \<open>(i, j)\<close> of the result, as
  \<open>elementwise\<close> reads it.
\<close>

definition bcast :: "matrix \<Rightarrow> nat \<Rightarrow> nat \<Rightarrow> real" where
  "bcast A i j = entry A (bidx (nrows A) i) (bidx (ncols A) j)"

subsection \<open>Rounding\<close>

text \<open>No rounding: exact arithmetic.\<close>

definition exact :: "real \<Rightarrow> real" where
  "exact x = x"

text \<open>The nearest integer, a tie going to the even one.\<close>

definition round_half_even :: "real \<Rightarrow> int" where
  "round_half_even x =
     (let f = \<lfloor>x\<rfloor>; d = x - of_int f
      in if d < 1 / 2 then f else if 1 / 2 < d then f + 1 else if even f then f else f + 1)"

text \<open>
  Double precision: the nearest number with a 53-bit significand, a tie going to the
  even significand.  The spacing of the doubles around \<open>x\<close> is \<open>2\<^bsup>e - 52\<^esup>\<close> with \<open>e\<close> the
  exponent of the leading bit of \<open>x\<close>, and not less than \<open>-1022\<close> (below that the doubles
  are subnormal and equally spaced).  Overflow to infinity is not modelled.
\<close>

definition binary64 :: "real \<Rightarrow> real" where
  "binary64 x =
     (if x = 0 then 0
      else let e = max \<lfloor>log 2 \<bar>x\<bar>\<rfloor> (- 1022);
               u = 2 powr (of_int e - 52)
           in of_int (round_half_even (x / u)) * u)"

subsection \<open>Imported modules\<close>

text \<open>
  The notebook imports \<open>get_dataset\<close>, \<open>DatasetTorch\<close>, \<open>get_init\<close>, \<open>fully_connected\<close>,
  \<open>loss_hessian\<close> and \<open>outer_prod\<close> from modules that are not part of it, and takes
  \<open>matrix_rank\<close> and the arithmetic of its arrays from the numerical library.  They are
  parameters of the model.
\<close>

type_synonym batch = "matrix \<times> matrix"
type_synonym apply_fn = "matrix list \<Rightarrow> matrix \<Rightarrow> error + matrix"
type_synonym loss_fn = "matrix \<Rightarrow> matrix \<Rightarrow> error + real"
type_synonym loss_params_fn = "matrix list \<Rightarrow> matrix \<Rightarrow> matrix \<Rightarrow> error + real"

record collaborators =
  train_loader :: "int \<Rightarrow> int \<Rightarrow> int \<Rightarrow> int \<Rightarrow> error + batch list"
    \<comment> \<open>\<open>n_train\<close>, \<open>dim\<close>, \<open>classes\<close>, \<open>bs\<close>: the batches the data loader delivers, in order\<close>
  init_params :: "int list \<Rightarrow> int \<Rightarrow> int \<Rightarrow> error + matrix list"
    \<comment> \<open>\<open>units\<close>, \<open>classes\<close>, \<open>dim\<close>: the initial weight matrices\<close>
  net_apply :: "int list \<Rightarrow> int \<Rightarrow> apply_fn"
    \<comment> \<open>\<open>units\<close>, \<open>classes\<close>: the network evaluator\<close>
  loss_hessian :: "loss_params_fn \<Rightarrow> matrix list \<Rightarrow> matrix \<Rightarrow> matrix \<Rightarrow> error + matrix"
  outer_prod :: "loss_fn \<Rightarrow> apply_fn \<Rightarrow> matrix list \<Rightarrow> matrix \<Rightarrow> matrix \<Rightarrow> bool \<Rightarrow> error + matrix"
  matrix_rank :: "matrix \<Rightarrow> int"
    \<comment> \<open>the numerical rank of a matrix that has entries\<close>
  rounding :: "real \<Rightarrow> real"
    \<comment> \<open>the rounding of the array library: \<open>binary64\<close> in the source\<close>

subsection \<open>Cell 6: the parameter count\<close>

text \<open>
  \<^verbatim>\<open>
  all_widths = [dim] + widths + [classes]
  p = sum([all_widths[i] * all_widths[i + 1] for i in range(len(all_widths)-1)])
  \<close>
\<close>

definition param_count :: "int list \<Rightarrow> int" where
  "param_count all_widths =
     sum_list (map (\<lambda>i. all_widths ! i * all_widths ! (i + 1)) [0..<length all_widths - 1])"

subsection \<open>Cell 12: the loss\<close>

text \<open>
  \<^verbatim>\<open>
  def loss(preds, targets):
      return 1/2 * jnp.sum((preds - targets)**2)
  def loss_params(params, inputs, targets):
      preds = apply_fn(params, inputs)
      return 1/2 * jnp.sum((preds - targets)**2)
  \<close>
\<close>

definition loss_mse :: "(real \<Rightarrow> real) \<Rightarrow> loss_fn" where
  "loss_mse rnd preds targets =
     bind_e (msub rnd preds targets) (\<lambda>d.
       Inr (rnd (1 / 2 * jnp_sum rnd (map_matrix (\<lambda>x. rnd (x\<^sup>2)) d))))"

definition loss_params_mse :: "(real \<Rightarrow> real) \<Rightarrow> apply_fn \<Rightarrow> loss_params_fn" where
  "loss_params_mse rnd apply_fn params inputs targets =
     bind_e (apply_fn params inputs) (\<lambda>preds.
     bind_e (msub rnd preds targets) (\<lambda>d.
       Inr (rnd (1 / 2 * jnp_sum rnd (map_matrix (\<lambda>x. rnd (x\<^sup>2)) d)))))"

text \<open>
  \<^verbatim>\<open>
  def loss(preds, targets):
      return -jnp.sum(logsoftmax(preds) * targets)
  def loss_params(params, inputs, targets):
      preds = apply_fn(params, inputs)
      return -jnp.sum(logsoftmax(preds) * targets)
  \<close>
\<close>

definition loss_cross :: "(real \<Rightarrow> real) \<Rightarrow> loss_fn" where
  "loss_cross rnd preds targets =
     bind_e (mmul rnd (logsoftmax rnd preds) targets) (\<lambda>m. Inr (- jnp_sum rnd m))"

definition loss_params_cross :: "(real \<Rightarrow> real) \<Rightarrow> apply_fn \<Rightarrow> loss_params_fn" where
  "loss_params_cross rnd apply_fn params inputs targets =
     bind_e (apply_fn params inputs) (\<lambda>preds.
     bind_e (mmul rnd (logsoftmax rnd preds) targets) (\<lambda>m. Inr (- jnp_sum rnd m)))"

text \<open>
  \<^verbatim>\<open>
  def loss(preds, targets):
      return jnp.sum(jnp.log(jnp.cosh(preds - targets)))
  def loss_params(params, inputs, targets):
      preds = apply_fn(params, inputs)
      return loss(preds, targets)
  \<close>
\<close>

definition loss_cosh :: "(real \<Rightarrow> real) \<Rightarrow> loss_fn" where
  "loss_cosh rnd preds targets =
     bind_e (msub rnd preds targets) (\<lambda>d.
       Inr (jnp_sum rnd (map_matrix (\<lambda>x. rnd (ln (rnd (cosh x)))) d)))"

definition loss_params_cosh :: "(real \<Rightarrow> real) \<Rightarrow> apply_fn \<Rightarrow> loss_params_fn" where
  "loss_params_cosh rnd apply_fn params inputs targets =
     bind_e (apply_fn params inputs) (\<lambda>preds. loss_cosh rnd preds targets)"

text \<open>
  The names the cell binds.  A name that no branch binds stays unbound (\<open>None\<close>).  The
  three tests are separate \<open>if\<close> statements, run one after the other.
\<close>

record loss_env =
  cross :: "bool option"
  loss :: "loss_fn option"
  loss_params :: "loss_params_fn option"

definition unbound :: loss_env where
  "unbound = \<lparr>cross = None, loss = None, loss_params = None\<rparr>"

definition cell12 :: "(real \<Rightarrow> real) \<Rightarrow> apply_fn \<Rightarrow> string \<Rightarrow> loss_env" where
  "cell12 rnd apply_fn loss_name =
     (let env = unbound;
          env = (if loss_name = ''mse''
                 then \<lparr>cross = Some False, loss = Some (loss_mse rnd),
                       loss_params = Some (loss_params_mse rnd apply_fn)\<rparr>
                 else env);
          env = (if loss_name = ''cross''
                 then \<lparr>cross = Some True, loss = Some (loss_cross rnd),
                       loss_params = Some (loss_params_cross rnd apply_fn)\<rparr>
                 else env);
          env = (if loss_name = ''cosh''
                 then \<lparr>cross = Some False, loss = Some (loss_cosh rnd),
                       loss_params = Some (loss_params_cosh rnd apply_fn)\<rparr>
                 else env)
      in env)"

text \<open>Reading a name: an unbound one raises \<open>NameError\<close>.\<close>

definition lookup :: "string \<Rightarrow> 'a option \<Rightarrow> error + 'a" where
  "lookup name v = (case v of None \<Rightarrow> Inl (NameError name) | Some x \<Rightarrow> Inr x)"

subsection \<open>Cell 14: the accumulation loop\<close>

record accumulators =
  cov :: matrix
  H_L :: matrix
  H_outer :: matrix

text \<open>
  \<^verbatim>\<open>
  cov += batch_input.T @ batch_input
  H_L += loss_hessian(loss_params, params, batch_input, batch_label)
  H_outer += outer_prod(loss, apply_fn, params, batch_input, batch_label, cross=cross)
  \<close>
  The three statements run in this order, and the arguments of a call are read from left
  to right; the first failure ends the run.
\<close>

definition loop_body ::
  "collaborators \<Rightarrow> loss_env \<Rightarrow> apply_fn \<Rightarrow> matrix list \<Rightarrow> accumulators \<Rightarrow> batch \<Rightarrow> error + accumulators"
where
  "loop_body deps env apply_fn params acc batch =
     (case batch of (batch_input, batch_label) \<Rightarrow>
        bind_e (matmul (rounding deps) (mat_T batch_input) batch_input) (\<lambda>gram.
        bind_e (madd (rounding deps) (cov acc) gram) (\<lambda>cov'.
        bind_e (lookup ''loss_params'' (loss_params env)) (\<lambda>lp.
        bind_e (loss_hessian deps lp params batch_input batch_label) (\<lambda>h.
        bind_e (madd (rounding deps) (H_L acc) h) (\<lambda>H_L'.
        bind_e (lookup ''loss'' (loss env)) (\<lambda>l.
        bind_e (lookup ''cross'' (cross env)) (\<lambda>c.
        bind_e (outer_prod deps l apply_fn params batch_input batch_label c) (\<lambda>out.
        bind_e (madd (rounding deps) (H_outer acc) out) (\<lambda>H_outer'.
          Inr \<lparr>cov = cov', H_L = H_L', H_outer = H_outer'\<rparr>))))))))))"

fun accumulate ::
  "(accumulators \<Rightarrow> batch \<Rightarrow> error + accumulators) \<Rightarrow> accumulators \<Rightarrow> batch list \<Rightarrow> error + accumulators"
where
  "accumulate body acc [] = Inr acc"
| "accumulate body acc (b # batches) = bind_e (body acc b) (\<lambda>acc'. accumulate body acc' batches)"

text \<open>
  \<^verbatim>\<open>
  H_L, H_outer = jnp.zeros(shape=(p, p)), jnp.zeros(shape=(p, p))
  cov = jnp.zeros(shape=(dim, dim))
  \<close>
  The argument \<open>d\<close> is the notebook's \<open>dim\<close>.
\<close>

definition init_accumulators :: "int \<Rightarrow> int \<Rightarrow> error + accumulators" where
  "init_accumulators p d =
     bind_e (jnp_zeros p p) (\<lambda>H_L0.
     bind_e (jnp_zeros p p) (\<lambda>H_outer0.
     bind_e (jnp_zeros d d) (\<lambda>cov0.
       Inr \<lparr>cov = cov0, H_L = H_L0, H_outer = H_outer0\<rparr>)))"

text \<open>After the loop: \<open>H_F = H_L - H_outer\<close>.  The cell returns the accumulators and \<open>H_F\<close>.\<close>

definition cell14 ::
  "collaborators \<Rightarrow> loss_env \<Rightarrow> apply_fn \<Rightarrow> matrix list \<Rightarrow> int \<Rightarrow> int \<Rightarrow> batch list
     \<Rightarrow> error + (accumulators \<times> matrix)"
where
  "cell14 deps env apply_fn params p d batches =
     bind_e (init_accumulators p d) (\<lambda>acc0.
     bind_e (accumulate (loop_body deps env apply_fn params) acc0 batches) (\<lambda>acc.
     bind_e (msub (rounding deps) (H_L acc) (H_outer acc)) (\<lambda>H_F. Inr (acc, H_F))))"

subsection \<open>Cell 15: the measured ranks\<close>

record ranks =
  rank_cov :: int
  rank_L :: int
  rank_outer :: int
  rank_F :: int

text \<open>
  \<open>jnp.linalg.matrix_rank(M)\<close> compares the singular values of \<open>M\<close> with a tolerance
  that it takes from the largest of them; for a matrix without entries there is no
  largest one, and the call fails.
\<close>

definition jnp_matrix_rank :: "collaborators \<Rightarrow> matrix \<Rightarrow> error + int" where
  "jnp_matrix_rank deps M =
     (if nrows M = 0 \<or> ncols M = 0 then Inl ZeroSizeReduction else Inr (matrix_rank deps M))"

text \<open>
  \<^verbatim>\<open>
  rank_cov = jnp.linalg.matrix_rank(cov)
  rank_L = jnp.linalg.matrix_rank(H_L)
  rank_outer = jnp.linalg.matrix_rank(H_outer)
  rank_F = jnp.linalg.matrix_rank(H_F)
  \<close>
\<close>

definition cell15 :: "collaborators \<Rightarrow> accumulators \<Rightarrow> matrix \<Rightarrow> error + ranks" where
  "cell15 deps acc H_F =
     bind_e (jnp_matrix_rank deps (cov acc)) (\<lambda>rank_cov.
     bind_e (jnp_matrix_rank deps (H_L acc)) (\<lambda>rank_L.
     bind_e (jnp_matrix_rank deps (H_outer acc)) (\<lambda>rank_outer.
     bind_e (jnp_matrix_rank deps H_F) (\<lambda>rank_F.
       Inr \<lparr>rank_cov = rank_cov, rank_L = rank_L, rank_outer = rank_outer, rank_F = rank_F\<rparr>))))"

subsection \<open>The whole notebook\<close>

record config =
  n_train :: int
  dim :: int
  widths :: "int list"
  classes :: int
  bs :: int
  loss_name :: string

text \<open>What a complete run leaves bound.\<close>

record run =
  run_p :: int
  run_batches :: "batch list"
  run_params :: "matrix list"
  run_acc :: accumulators
  run_H_F :: matrix
  run_ranks :: ranks
  run_classes :: int
  run_predictions :: predictions

definition notebook :: "collaborators \<Rightarrow> config \<Rightarrow> error + run" where
  "notebook deps cfg =
     (let p = param_count ([dim cfg] @ widths cfg @ [classes cfg])
      in bind_e (train_loader deps (n_train cfg) (dim cfg) (classes cfg) (bs cfg)) (\<lambda>batches.
         bind_e (init_params deps (widths cfg) (classes cfg) (dim cfg)) (\<lambda>params.
           let apply_fn = net_apply deps (widths cfg) (classes cfg);
               env = cell12 (rounding deps) apply_fn (loss_name cfg)
           in bind_e (cell14 deps env apply_fn params p (dim cfg) batches) (\<lambda>(acc, H_F).
              bind_e (cell15 deps acc H_F) (\<lambda>rk.
              bind_e (cell17 (loss_name cfg) (rank_cov rk) (classes cfg) (widths cfg))
                (\<lambda>(classes', P).
                   Inr \<lparr>run_p = p, run_batches = batches, run_params = params,
                        run_acc = acc, run_H_F = H_F, run_ranks = rk,
                        run_classes = classes', run_predictions = P\<rparr>))))))"

subsection \<open>The predictions in closed form\<close>

text \<open>
  The bound formulas over the integers, written out with \<open>Min\<close> over the set of all
  entries, the full-loss prediction in the closed form of the notebook's displayed bound;
  and the same record with the three predictions reduced to the signed 64-bit range.
  The theorems below compare the result of \<open>bound_predictor\<close> with these records.
\<close>

definition closed_form :: "int \<Rightarrow> int \<Rightarrow> int list \<Rightarrow> predictions" where
  "closed_form r k ws =
     \<lparr>s = min r k,
      q = Min (set (r # k # ws)),
      pred_F = 2 * Min (set (r # k # ws)) * sum_list ws + 2 * Min (set (r # k # ws)) * min r k
                 - (int (length ws) + 1) * (Min (set (r # k # ws)))\<^sup>2,
      pred_outer = Min (set (r # k # ws)) * (r + k - Min (set (r # k # ws))),
      pred_L = 2 * Min (set (r # k # ws)) * sum_list ws
                 - (int (length ws) + 1) * (Min (set (r # k # ws)))\<^sup>2
                 + Min (set (r # k # ws)) * (r + k)\<rparr>"

definition wrapped_form :: "int \<Rightarrow> int \<Rightarrow> int list \<Rightarrow> predictions" where
  "wrapped_form r k ws =
     \<lparr>s = s (closed_form r k ws),
      q = q (closed_form r k ws),
      pred_F = wrap64 (pred_F (closed_form r k ws)),
      pred_outer = wrap64 (pred_outer (closed_form r k ws)),
      pred_L = wrap64 (pred_L (closed_form r k ws))\<rparr>"

subsection \<open>One batch, taken apart\<close>

text \<open>
  The right-hand sides of the three statements of the loop body for one batch, and the
  three additions on their own.  A loop body whose right-hand sides all succeed is the
  three additions (\<open>loop_body_contributions\<close>).
\<close>

definition contributions ::
  "collaborators \<Rightarrow> loss_env \<Rightarrow> apply_fn \<Rightarrow> matrix list \<Rightarrow> batch \<Rightarrow> error + (matrix \<times> matrix \<times> matrix)"
where
  "contributions deps env apply_fn params batch =
     (case batch of (batch_input, batch_label) \<Rightarrow>
        bind_e (matmul (rounding deps) (mat_T batch_input) batch_input) (\<lambda>gram.
        bind_e (lookup ''loss_params'' (loss_params env)) (\<lambda>lp.
        bind_e (loss_hessian deps lp params batch_input batch_label) (\<lambda>h.
        bind_e (lookup ''loss'' (loss env)) (\<lambda>l.
        bind_e (lookup ''cross'' (cross env)) (\<lambda>c.
        bind_e (outer_prod deps l apply_fn params batch_input batch_label c) (\<lambda>out.
          Inr (gram, h, out))))))))"

definition add_contributions ::
  "(real \<Rightarrow> real) \<Rightarrow> accumulators \<Rightarrow> matrix \<times> matrix \<times> matrix \<Rightarrow> error + accumulators"
where
  "add_contributions rnd acc t =
     (case t of (gram, h, out) \<Rightarrow>
        bind_e (madd rnd (cov acc) gram) (\<lambda>cov'.
        bind_e (madd rnd (H_L acc) h) (\<lambda>H_L'.
        bind_e (madd rnd (H_outer acc) out) (\<lambda>H_outer'.
          Inr \<lparr>cov = cov', H_L = H_L', H_outer = H_outer'\<rparr>))))"

text \<open>The successive values of the accumulators: before the first batch and after each one.\<close>

fun accumulate_trace ::
  "(accumulators \<Rightarrow> batch \<Rightarrow> error + accumulators) \<Rightarrow> accumulators \<Rightarrow> batch list \<Rightarrow> error + accumulators list"
where
  "accumulate_trace body acc [] = Inr [acc]"
| "accumulate_trace body acc (b # batches) =
     bind_e (body acc b) (\<lambda>acc'.
     bind_e (accumulate_trace body acc' batches) (\<lambda>tr. Inr (acc # tr)))"

text \<open>
  Two exact additions in a row, in a form that is symmetric in the two summands.
\<close>

definition add2 :: "matrix \<Rightarrow> matrix \<Rightarrow> matrix \<Rightarrow> error + matrix" where
  "add2 A X Y =
     bind_e (bind_e (broadcast_dim (nrows A) (nrows X)) (\<lambda>n. broadcast_dim n (nrows Y))) (\<lambda>n.
     bind_e (bind_e (broadcast_dim (ncols A) (ncols X)) (\<lambda>m. broadcast_dim m (ncols Y))) (\<lambda>m.
       Inr (tabulate2 n m (\<lambda>i j.
         entry A (bidx (nrows A) i) (bidx (ncols A) j)
         + (entry X (bidx (nrows X) i) (bidx (ncols X) j)
            + entry Y (bidx (nrows Y) i) (bidx (ncols Y) j))))))"

text \<open>One batch's exact additions as a step on the outcome so far.\<close>

definition step :: "matrix \<times> matrix \<times> matrix \<Rightarrow> error + accumulators \<Rightarrow> error + accumulators" where
  "step t st = bind_e st (\<lambda>acc. add_contributions exact acc t)"

subsection \<open>What the module \<open>hessians\<close> returns\<close>

text \<open>
  Modelled from the spec: the module \<open>hessians\<close> with \<open>loss_hessian\<close> and \<open>outer_prod\<close> is
  not part of the notebook.  The spec describes the full Hessian of the batch loss as a
  \<open>p \<times> p\<close> matrix, \<open>p\<close> the total parameter count, and the outer-product Hessian as a
  matrix of the same kind.  \<open>hessians_p_by_p\<close> says so for one batch: whatever the two
  functions return for it without failing has \<open>p\<close> rows and \<open>p\<close> columns.
\<close>

definition shaped :: "nat \<Rightarrow> nat \<Rightarrow> error + matrix \<Rightarrow> bool" where
  "shaped n m r = (case r of Inl e \<Rightarrow> True | Inr M \<Rightarrow> nrows M = n \<and> ncols M = m)"

definition hessians_p_by_p ::
  "collaborators \<Rightarrow> loss_env \<Rightarrow> apply_fn \<Rightarrow> matrix list \<Rightarrow> int \<Rightarrow> batch \<Rightarrow> bool"
where
  "hessians_p_by_p deps env apply_fn params p batch =
     (case batch of (batch_input, batch_label) \<Rightarrow>
        (case loss_params env of None \<Rightarrow> True
         | Some lp \<Rightarrow> shaped (nat p) (nat p) (loss_hessian deps lp params batch_input batch_label))
        \<and> (case (loss env, cross env) of
             (Some l, Some c) \<Rightarrow>
               shaped (nat p) (nat p) (outer_prod deps l apply_fn params batch_input batch_label c)
           | _ \<Rightarrow> True))"

text \<open>Both Hessian accumulators are \<open>n \<times> n\<close>, the full one with all its entries in place.\<close>

definition hessians_square :: "nat \<Rightarrow> accumulators \<Rightarrow> bool" where
  "hessians_square n acc \<longleftrightarrow>
     well_shaped (H_L acc) \<and> nrows (H_L acc) = n \<and> ncols (H_L acc) = n \<and>
     nrows (H_outer acc) = n \<and> ncols (H_outer acc) = n"

subsection \<open>A small instance\<close>

text \<open>
  Two batches with one input column and two classes, an identity network, and stand-ins
  for the imported modules that return \<open>2 \<times> 2\<close> matrices; \<open>p = 1 \<cdot> 2 = 2\<close>.  The
  instance is used to run the model on concrete data, in exact arithmetic.
\<close>

definition toy_batch1 :: batch where
  "toy_batch1 = (\<lparr>nrows = 1, ncols = 1, rows = [[2]]\<rparr>, \<lparr>nrows = 1, ncols = 2, rows = [[1, 0]]\<rparr>)"

definition toy_batch2 :: batch where
  "toy_batch2 = (\<lparr>nrows = 2, ncols = 1, rows = [[1], [3]]\<rparr>, \<lparr>nrows = 2, ncols = 2, rows = [[0, 1], [1, 0]]\<rparr>)"

definition toy_apply :: apply_fn where
  "toy_apply = (\<lambda>params x. Inr x)"

definition toy_collaborators :: collaborators where
  "toy_collaborators =
     \<lparr>train_loader = (\<lambda>n d k b. Inr [toy_batch1, toy_batch2]),
      init_params = (\<lambda>units k d. Inr []),
      net_apply = (\<lambda>units k. toy_apply),
      loss_hessian = (\<lambda>lp params x y.
         Inr \<lparr>nrows = 2, ncols = 2, rows = [[entry x 0 0, 1], [1, entry x 0 0]]\<rparr>),
      outer_prod = (\<lambda>l a params x y c.
         Inr \<lparr>nrows = 2, ncols = 2, rows = [[1, 0], [0, entry x 0 0]]\<rparr>),
      matrix_rank = (\<lambda>A. int (nrows A)),
      rounding = exact\<rparr>"

definition toy_config :: config where
  "toy_config = \<lparr>n_train = 3, dim = 1, widths = [], classes = 2, bs = 2, loss_name = ''mse''\<rparr>"

definition toy_acc :: accumulators where
  "toy_acc = \<lparr>cov = \<lparr>nrows = 1, ncols = 1, rows = [[14]]\<rparr>,
              H_L = \<lparr>nrows = 2, ncols = 2, rows = [[3, 2], [2, 3]]\<rparr>,
              H_outer = \<lparr>nrows = 2, ncols = 2, rows = [[2, 0], [0, 3]]\<rparr>\<rparr>"

definition toy_H_F :: matrix where
  "toy_H_F = \<lparr>nrows = 2, ncols = 2, rows = [[1, 2], [2, 0]]\<rparr>"

definition toy_run :: "int \<Rightarrow> predictions \<Rightarrow> run" where
  "toy_run k P =
     \<lparr>run_p = 2, run_batches = [toy_batch1, toy_batch2], run_params = [], run_acc = toy_acc,
      run_H_F = toy_H_F,
      run_ranks = \<lparr>rank_cov = 1, rank_L = 2, rank_outer = 2, rank_F = 2\<rparr>,
      run_classes = k, run_predictions = P\<rparr>"

subsection \<open>A small instance in double precision\<close>

text \<open>
  Batches of a single sample with a single input column: one with the input \<open>10\<^sup>8\<close> and
  one with the input 1.  The stand-ins for the Hessian routines return zero matrices,
  and the array library rounds to double precision.
\<close>

definition big_batch :: batch where
  "big_batch = (\<lparr>nrows = 1, ncols = 1, rows = [[100000000]]\<rparr>, \<lparr>nrows = 1, ncols = 2, rows = [[1, 0]]\<rparr>)"

definition unit_batch :: batch where
  "unit_batch = (\<lparr>nrows = 1, ncols = 1, rows = [[1]]\<rparr>, \<lparr>nrows = 1, ncols = 2, rows = [[0, 1]]\<rparr>)"

definition zeros2 :: matrix where
  "zeros2 = \<lparr>nrows = 2, ncols = 2, rows = [[0, 0], [0, 0]]\<rparr>"

definition double_collaborators :: collaborators where
  "double_collaborators =
     \<lparr>train_loader = (\<lambda>n d k b. Inr [big_batch, unit_batch, unit_batch]),
      init_params = (\<lambda>units k d. Inr []),
      net_apply = (\<lambda>units k. toy_apply),
      loss_hessian = (\<lambda>lp params x y. Inr zeros2),
      outer_prod = (\<lambda>l a params x y c. Inr zeros2),
      matrix_rank = (\<lambda>A. int (nrows A)),
      rounding = binary64\<rparr>"

section \<open>Properties\<close>

subsection \<open>Failures, minima and conversions\<close>

lemma bind_e_simps [simp]: "bind_e (Inl e) f = Inl e" "bind_e (Inr x) f = f x"
  by (simp_all add: bind_e_def)

lemma bind_e_eq_Inr: "bind_e m f = Inr y \<longleftrightarrow> (\<exists>x. m = Inr x \<and> f x = Inr y)"
  by (cases m) simp_all

lemma fold_min_Min: "fold min xs (x::int) = Min (insert x (set xs))"
proof (induction xs arbitrary: x)
  case Nil
  show ?case by simp
next
  case (Cons y ys)
  have "fold min (y # ys) x = Min (insert (min y x) (set ys))"
    using Cons.IH [of "min y x"] by simp
  also have "\<dots> = Min (insert x (set (y # ys)))"
  proof (cases "set ys = {}")
    case True
    then show ?thesis by (simp add: min.commute)
  next
    case False
    then show ?thesis by (simp add: Min_insert min.assoc min.left_commute min.commute)
  qed
  finally show ?case .
qed

lemma jnp_min_Cons: "jnp_min (x # xs) = Inr (Min (insert x (set xs)))"
  by (simp add: fold_min_Min)

lemma to_int64_simps: "int64 x \<Longrightarrow> to_int64 x = Inr x" "\<not> int64 x \<Longrightarrow> to_int64 x = Inl OverflowError"
  by (simp_all add: to_int64_def)

lemma jnp_array_eq: "jnp_array xs = (if list_all int64 xs then Inr xs else Inl OverflowError)"
  by (induction xs) (simp_all add: to_int64_def)

subsection \<open>Arithmetic modulo \<open>2\<^sup>6\<^sup>4\<close>\<close>

lemma eq64_refl: "eq64 a a"
  by (simp add: eq64_def)

lemma eq64_wrap: "eq64 a b \<Longrightarrow> eq64 (wrap64 a) b"
proof -
  have "wrap64 a mod 2 ^ 64 = a mod 2 ^ 64"
    unfolding wrap64_def by (simp add: mod_diff_left_eq)
  then show "eq64 a b \<Longrightarrow> eq64 (wrap64 a) b"
    by (simp add: eq64_def)
qed

lemma eq64_add: "eq64 a a' \<Longrightarrow> eq64 b b' \<Longrightarrow> eq64 (a + b) (a' + b')"
  unfolding eq64_def by (rule mod_add_cong)

lemma eq64_diff: "eq64 a a' \<Longrightarrow> eq64 b b' \<Longrightarrow> eq64 (a - b) (a' - b')"
  unfolding eq64_def by (rule mod_diff_cong)

lemma eq64_mult: "eq64 a a' \<Longrightarrow> eq64 b b' \<Longrightarrow> eq64 (a * b) (a' * b')"
  unfolding eq64_def by (rule mod_mult_cong)

lemma wrap64_cong: "eq64 a b \<Longrightarrow> wrap64 a = wrap64 b"
  unfolding eq64_def wrap64_def by (metis mod_add_cong)


lemmas eq64_intros = eq64_wrap eq64_add eq64_diff eq64_mult eq64_refl


subsection \<open>The bound predictor\<close>

lemma bound_predictor_wrapped:
  assumes "representable r k ws"
  shows "bound_predictor r k ws = Inr (wrapped_form r k ws)"
proof -
  define qv where "qv = Min (set (r # k # ws))"
  define sv where "sv = min r k"
  from assms have fits: "list_all int64 [r, k]" "list_all int64 ([r, k] @ ws)"
      "int64 (sum_list ws)" "int64 (int (length ws) + 1)"
    by (simp_all add: representable_def)
  have sq: "jnp_min [r, k] = Inr sv" "jnp_min ([r, k] @ ws) = Inr qv"
    unfolding sv_def qv_def
    by (simp add: min.commute, simp only: append_Cons append_Nil jnp_min_Cons list.set)
  have F: "wrap64 (wrap64 (wrap64 (wrap64 (2 * qv) * sum_list ws) + wrap64 (wrap64 (2 * qv) * sv))
                  - wrap64 ((int (length ws) + 1) * wrap64 (qv\<^sup>2)))
         = wrap64 (2 * qv * sum_list ws + 2 * qv * sv - (int (length ws) + 1) * qv\<^sup>2)"
    by (intro wrap64_cong eq64_intros)
  have outer: "wrap64 (wrap64 (wrap64 (r + k) - qv) * qv) = wrap64 (qv * (r + k - qv))"
  proof -
    have "wrap64 (wrap64 (wrap64 (r + k) - qv) * qv) = wrap64 ((r + k - qv) * qv)"
      by (intro wrap64_cong eq64_intros)
    then show ?thesis by (simp add: mult.commute)
  qed
  have L: "wrap64 (wrap64 (wrap64 (2 * qv * sum_list ws + 2 * qv * sv - (int (length ws) + 1) * qv\<^sup>2)
                           + wrap64 (qv * (r + k - qv)))
                   + wrap64 (qv * wrap64 (qv - wrap64 (2 * sv))))
         = wrap64 (2 * qv * sum_list ws - (int (length ws) + 1) * qv\<^sup>2 + qv * (r + k))"
  proof -
    have "wrap64 (wrap64 (wrap64 (2 * qv * sum_list ws + 2 * qv * sv - (int (length ws) + 1) * qv\<^sup>2)
                           + wrap64 (qv * (r + k - qv)))
                   + wrap64 (qv * wrap64 (qv - wrap64 (2 * sv))))
        = wrap64 ((2 * qv * sum_list ws + 2 * qv * sv - (int (length ws) + 1) * qv\<^sup>2)
                   + qv * (r + k - qv) + qv * (qv - 2 * sv))"
      by (intro wrap64_cong eq64_intros)
    also have "(2 * qv * sum_list ws + 2 * qv * sv - (int (length ws) + 1) * qv\<^sup>2)
                   + qv * (r + k - qv) + qv * (qv - 2 * sv)
             = 2 * qv * sum_list ws - (int (length ws) + 1) * qv\<^sup>2 + qv * (r + k)"
      by (simp add: algebra_simps power2_eq_square)
    finally show ?thesis .
  qed
  show ?thesis
    unfolding bound_predictor_def jnp_array_eq
    by (simp only: fits if_True bind_e_simps sq to_int64_simps Let_def F outer L)
      (simp add: wrapped_form_def closed_form_def qv_def sv_def)
qed

lemma bound_predictor_overflow:
  assumes "\<not> representable r k ws"
  shows "bound_predictor r k ws = Inl OverflowError"
proof -
  have sq: "jnp_min (r # k # xs) = Inr (Min (insert r (set (k # xs))))" for xs
    by (rule jnp_min_Cons)
  show ?thesis
    using assms unfolding bound_predictor_def jnp_array_eq representable_def
    by (auto simp: to_int64_def Let_def jnp_min_Cons simp del: jnp_min.simps)
qed














text \<open>
  C4.  The class count that enters the predictor is the configured one minus one exactly
  when the loss name is \<open>cross\<close>, and the configured one for every other name, \<open>mse\<close> and
  \<open>cosh\<close> among them.  The cell either fails with an overflow error or returns \<open>s\<close> and
  \<open>q\<close> computed from the adjusted count; it returns them whenever the operands of the
  predictor fit into 64 bits.
\<close>

theorem cross_entropy_decrements_classes:
  "cell17 name r k ws =
     (let k' = (if name = ''cross'' then k - 1 else k)
      in bind_e (bound_predictor r k' ws) (\<lambda>P. Inr (k', P)))
   \<and> (case cell17 name r k ws of
         Inl e \<Rightarrow> e = OverflowError
       | Inr (k', P) \<Rightarrow> k' = adjust_classes name k \<and> s P = min r k'
                          \<and> q P = Min (set (r # k' # ws)))
   \<and> (representable r (adjust_classes name k) ws \<longrightarrow>
        (\<exists>P. cell17 name r k ws = Inr (adjust_classes name k, P)
           \<and> s P = min r (adjust_classes name k)
           \<and> q P = Min (set (r # adjust_classes name k # ws))))
   \<and> (adjust_classes name k = k - 1) = (name = ''cross'')
   \<and> (adjust_classes name k = k) = (name \<noteq> ''cross'')
   \<and> adjust_classes ''cross'' k = k - 1
   \<and> adjust_classes ''mse'' k = k
   \<and> adjust_classes ''cosh'' k = k"
proof -
  let ?k = "adjust_classes name k"
  have 1: "cell17 name r k ws =
     (let k' = (if name = ''cross'' then k - 1 else k)
      in bind_e (bound_predictor r k' ws) (\<lambda>P. Inr (k', P)))"
    by (simp add: cell17_def adjust_classes_def Let_def)
  have fields: "s (wrapped_form r ?k ws) = min r ?k" "q (wrapped_form r ?k ws) = Min (set (r # ?k # ws))"
    by (simp_all add: wrapped_form_def closed_form_def)
  have run: "cell17 name r k ws = Inr (?k, wrapped_form r ?k ws)" if "representable r ?k ws"
    using bound_predictor_wrapped [OF that] by (simp add: cell17_def Let_def)
  have fail: "cell17 name r k ws = Inl OverflowError" if "\<not> representable r ?k ws"
    using bound_predictor_overflow [OF that] by (simp add: cell17_def Let_def)
  have 2: "(case cell17 name r k ws of
         Inl e \<Rightarrow> e = OverflowError
       | Inr (k', P) \<Rightarrow> k' = ?k \<and> s P = min r k' \<and> q P = Min (set (r # k' # ws)))"
    using run fail fields by (cases "representable r ?k ws") simp_all
  have 3: "\<exists>P. cell17 name r k ws = Inr (?k, P) \<and> s P = min r ?k \<and> q P = Min (set (r # ?k # ws))"
    if "representable r ?k ws"
    using run [OF that] fields by blast
  have 4: "(?k = k - 1) = (name = ''cross'')" "(?k = k) = (name \<noteq> ''cross'')"
      "adjust_classes ''cross'' k = k - 1" "adjust_classes ''mse'' k = k"
      "adjust_classes ''cosh'' k = k"
    by (simp_all add: adjust_classes_def)
  from 1 2 3 4 show ?thesis by blast
qed

theorem cross_entropy_decrements_classes_witness:
  "representable 25 (adjust_classes ''cross'' 10) [5, 10]
   \<and> cell17 ''cross'' 25 10 [5, 10] =
       Inr (9, \<lparr>s = 9, q = 5, pred_F = 165, pred_outer = 145, pred_L = 245\<rparr>)
   \<and> cell17 ''mse'' 25 10 [5, 10] =
       Inr (10, \<lparr>s = 10, q = 5, pred_F = 175, pred_outer = 150, pred_L = 250\<rparr>)"
proof -
  have fits: "representable 25 (adjust_classes ''cross'' 10) [5, 10]"
    by (simp add: representable_def int64_def adjust_classes_def)
  have runs: "cell17 ''cross'' 25 10 [5, 10] =
       Inr (9, \<lparr>s = 9, q = 5, pred_F = 165, pred_outer = 145, pred_L = 245\<rparr>)"
    "cell17 ''mse'' 25 10 [5, 10] =
       Inr (10, \<lparr>s = 10, q = 5, pred_F = 175, pred_outer = 150, pred_L = 250\<rparr>)"
    by code_simp+
  show ?thesis
    using cross_entropy_decrements_classes [of "''cross''" 25 10 "[5, 10]"] fits runs by simp
qed

text \<open>
  The arithmetic of the run recorded in the notebook: 25 input dimensions, hidden widths
  5 and 10, 10 classes, squared-error loss.  The parameter count is 275, and with a
  covariance of full rank 25 the three predictions are the printed 175, 150 and 250.
\<close>

lemma reference_configuration:
  "param_count ([25] @ [5, 10] @ [10]) = 275"
  "cell17 ''mse'' 25 10 [5, 10] =
     Inr (10, \<lparr>s = 10, q = 5, pred_F = 175, pred_outer = 150, pred_L = 250\<rparr>)"
  by code_simp+

subsection \<open>Arrays\<close>

lemma exact_simp [simp]: "exact x = x"
  by (simp add: exact_def)

lemma dims_tabulate2 [simp]:
  "nrows (tabulate2 n m f) = n" "ncols (tabulate2 n m f) = m"
  by (simp_all add: tabulate2_def)

lemma entry_tabulate2 [simp]: "i < n \<Longrightarrow> j < m \<Longrightarrow> entry (tabulate2 n m f) i j = f i j"
  by (simp add: tabulate2_def entry_def)

lemma well_shaped_tabulate2 [simp]: "well_shaped (tabulate2 n m f)"
  by (simp add: well_shaped_def tabulate2_def list_all_iff)

lemma tabulate2_cong:
  assumes "\<And>i j. i < n \<Longrightarrow> j < m \<Longrightarrow> f i j = g i j"
  shows "tabulate2 n m f = tabulate2 n m g"
  using assms by (simp add: tabulate2_def)

lemma tabulate2_entry:
  assumes "well_shaped A"
  shows "tabulate2 (nrows A) (ncols A) (entry A) = A"
proof -
  have len: "length (rows A) = nrows A"
    and row: "\<And>i. i < nrows A \<Longrightarrow> length (rows A ! i) = ncols A"
    using assms by (auto simp: well_shaped_def list_all_iff)
  have "map (\<lambda>i. map (\<lambda>j. rows A ! i ! j) [0..<ncols A]) [0..<nrows A] = rows A"
  proof (rule nth_equalityI)
    show "length (map (\<lambda>i. map (\<lambda>j. rows A ! i ! j) [0..<ncols A]) [0..<nrows A]) = length (rows A)"
      by (simp add: len)
  next
    fix i
    assume "i < length (map (\<lambda>i. map (\<lambda>j. rows A ! i ! j) [0..<ncols A]) [0..<nrows A])"
    then have i: "i < nrows A" by simp
    have "map (\<lambda>j. rows A ! i ! j) [0..<ncols A] = rows A ! i"
      using row [OF i] by (intro nth_equalityI) simp_all
    with i show "map (\<lambda>i. map (\<lambda>j. rows A ! i ! j) [0..<ncols A]) [0..<nrows A] ! i = rows A ! i"
      by simp
  qed
  then show ?thesis
    by (simp add: tabulate2_def entry_def [abs_def])
qed

lemma bidx_less [simp]: "i < n \<Longrightarrow> bidx n i = i"
  by (auto simp: bidx_def)

lemma bidx_in_range: "broadcast_dim a b = Inr n \<Longrightarrow> i < n \<Longrightarrow> bidx a i < a"
  by (auto simp: broadcast_dim_def bidx_def split: if_splits)

lemma broadcast_dim_same [simp]: "broadcast_dim n n = Inr n"
  by (simp add: broadcast_dim_def)

lemma bcast_in_shape [simp]: "i < nrows A \<Longrightarrow> j < ncols A \<Longrightarrow> bcast A i j = entry A i j"
  by (simp add: bcast_def)

lemma elementwise_bcast:
  "elementwise f A B =
     bind_e (broadcast_dim (nrows A) (nrows B)) (\<lambda>n.
     bind_e (broadcast_dim (ncols A) (ncols B)) (\<lambda>m.
       Inr (tabulate2 n m (\<lambda>i j. f (bcast A i j) (bcast B i j)))))"
  by (simp add: elementwise_def bcast_def)

lemma elementwise_same_shape:
  assumes "nrows B = nrows A" "ncols B = ncols A"
  shows "elementwise f A B =
           Inr (tabulate2 (nrows A) (ncols A) (\<lambda>i j. f (entry A i j) (entry B i j)))"
  using assms by (simp add: elementwise_def cong: tabulate2_cong)

lemma msub_same_shape:
  "nrows B = nrows A \<Longrightarrow> ncols B = ncols A \<Longrightarrow>
   msub rnd A B = Inr (tabulate2 (nrows A) (ncols A) (\<lambda>i j. rnd (entry A i j - entry B i j)))"
  unfolding msub_def by (rule elementwise_same_shape)

lemma madd_same_shape:
  "nrows B = nrows A \<Longrightarrow> ncols B = ncols A \<Longrightarrow>
   madd rnd A B = Inr (tabulate2 (nrows A) (ncols A) (\<lambda>i j. rnd (entry A i j + entry B i j)))"
  unfolding madd_def by (rule elementwise_same_shape)

lemma map_matrix_tabulate2:
  "map_matrix f (tabulate2 n m g) = tabulate2 n m (\<lambda>i j. f (g i j))"
  unfolding map_matrix_def dims_tabulate2 by (rule tabulate2_cong) simp

lemma jnp_sum_tabulate2:
  "jnp_sum rnd (tabulate2 n m f) = rnd (\<Sum>i\<leftarrow>[0..<n]. \<Sum>j\<leftarrow>[0..<m]. f i j)"
  by (simp add: jnp_sum_def tabulate2_def comp_def)

lemma upt_small: "[0..<1] = [0]" "[0..<2] = [0, 1]"
  by (simp_all add: upt_rec)

lemma elementwise_Inr:
  "elementwise f A B = Inr C \<longleftrightarrow>
     (\<exists>n m. broadcast_dim (nrows A) (nrows B) = Inr n \<and> broadcast_dim (ncols A) (ncols B) = Inr m \<and>
        C = tabulate2 n m (\<lambda>i j. f (entry A (bidx (nrows A) i) (bidx (ncols A) j))
                                    (entry B (bidx (nrows B) i) (bidx (ncols B) j))))"
  by (auto simp: elementwise_def bind_e_eq_Inr)

lemma madd_Inr_dims:
  assumes "madd rnd A B = Inr C" "nrows A = n" "ncols A = m" "nrows B = n" "ncols B = m"
  shows "nrows C = n \<and> ncols C = m \<and> well_shaped C"
  using assms by (auto simp: madd_def elementwise_Inr)

lemma sub_then_add:
  assumes "well_shaped A" "nrows B = nrows A" "ncols B = ncols A" "msub exact A B = Inr D"
  shows "madd exact D B = Inr A"
proof -
  have D: "D = tabulate2 (nrows A) (ncols A) (\<lambda>i j. entry A i j - entry B i j)"
    using assms(4) by (simp add: msub_same_shape [OF assms(2,3)])
  have "madd exact D B = Inr (tabulate2 (nrows A) (ncols A) (\<lambda>i j. entry D i j + entry B i j))"
    using madd_same_shape [of B D exact] assms(2,3) by (simp add: D)
  also have "tabulate2 (nrows A) (ncols A) (\<lambda>i j. entry D i j + entry B i j)
           = tabulate2 (nrows A) (ncols A) (entry A)"
    by (rule tabulate2_cong) (simp add: D)
  also have "\<dots> = A"
    by (rule tabulate2_entry [OF assms(1)])
  finally show ?thesis .
qed

subsection \<open>The loss\<close>

lemma loss_mse_form:
  "loss_mse rnd preds targets =
     bind_e (broadcast_dim (nrows preds) (nrows targets)) (\<lambda>n.
     bind_e (broadcast_dim (ncols preds) (ncols targets)) (\<lambda>m.
       Inr (rnd (1 / 2 * rnd (\<Sum>i\<leftarrow>[0..<n]. \<Sum>j\<leftarrow>[0..<m].
                  rnd ((rnd (bcast preds i j - bcast targets i j))\<^sup>2))))))"
  unfolding loss_mse_def msub_def elementwise_bcast
  by (auto simp: bind_e_def map_matrix_tabulate2 jnp_sum_tabulate2 split: sum.splits)

lemma loss_cosh_form:
  "loss_cosh rnd preds targets =
     bind_e (broadcast_dim (nrows preds) (nrows targets)) (\<lambda>n.
     bind_e (broadcast_dim (ncols preds) (ncols targets)) (\<lambda>m.
       Inr (rnd (\<Sum>i\<leftarrow>[0..<n]. \<Sum>j\<leftarrow>[0..<m].
                  rnd (ln (rnd (cosh (rnd (bcast preds i j - bcast targets i j)))))))))"
  unfolding loss_cosh_def msub_def elementwise_bcast
  by (auto simp: bind_e_def map_matrix_tabulate2 jnp_sum_tabulate2 split: sum.splits)

lemma loss_cross_form:
  "loss_cross rnd preds targets =
     bind_e (broadcast_dim (nrows preds) (nrows targets)) (\<lambda>n.
     bind_e (broadcast_dim (ncols preds) (ncols targets)) (\<lambda>m.
       Inr (- rnd (\<Sum>i\<leftarrow>[0..<n]. \<Sum>j\<leftarrow>[0..<m].
                  rnd (rnd (bcast preds i j
                            - ln (\<Sum>k\<leftarrow>[0..<ncols preds]. exp (entry preds (bidx (nrows preds) i) k)))
                       * bcast targets i j)))))"
proof (cases "broadcast_dim (nrows preds) (nrows targets)")
  case (Inl e)
  then show ?thesis
    by (simp add: loss_cross_def mmul_def elementwise_bcast logsoftmax_def)
next
  case n: (Inr n)
  show ?thesis
  proof (cases "broadcast_dim (ncols preds) (ncols targets)")
    case (Inl e)
    then show ?thesis
      by (simp add: loss_cross_def mmul_def elementwise_bcast logsoftmax_def n)
  next
    case m: (Inr m)
    have "tabulate2 n m (\<lambda>i j. rnd (bcast (logsoftmax rnd preds) i j * bcast targets i j))
        = tabulate2 n m (\<lambda>i j.
            rnd (rnd (bcast preds i j
                      - ln (\<Sum>k\<leftarrow>[0..<ncols preds]. exp (entry preds (bidx (nrows preds) i) k)))
                 * bcast targets i j))"
    proof (rule tabulate2_cong)
      fix i j assume "i < n" "j < m"
      then have "bidx (nrows preds) i < nrows preds" "bidx (ncols preds) j < ncols preds"
        using bidx_in_range [OF n] bidx_in_range [OF m] by simp_all
      then show "rnd (bcast (logsoftmax rnd preds) i j * bcast targets i j)
        = rnd (rnd (bcast preds i j
                      - ln (\<Sum>k\<leftarrow>[0..<ncols preds]. exp (entry preds (bidx (nrows preds) i) k)))
                 * bcast targets i j)"
        by (simp add: bcast_def logsoftmax_def)
    qed
    then show ?thesis
      by (simp add: loss_cross_def mmul_def elementwise_bcast logsoftmax_def n m jnp_sum_tabulate2)
  qed
qed

lemma loss_params_compose:
  "loss_params_mse rnd a = (\<lambda>ps xs ys. bind_e (a ps xs) (\<lambda>out. loss_mse rnd out ys))"
  "loss_params_cross rnd a = (\<lambda>ps xs ys. bind_e (a ps xs) (\<lambda>out. loss_cross rnd out ys))"
  "loss_params_cosh rnd a = (\<lambda>ps xs ys. bind_e (a ps xs) (\<lambda>out. loss_cosh rnd out ys))"
  by (simp_all add: fun_eq_iff loss_params_mse_def loss_params_cross_def loss_params_cosh_def
        loss_mse_def loss_cross_def)

lemma cell12_cases:
  "cell12 rnd a ''mse'' = \<lparr>cross = Some False, loss = Some (loss_mse rnd),
      loss_params = Some (loss_params_mse rnd a)\<rparr>"
  "cell12 rnd a ''cross'' = \<lparr>cross = Some True, loss = Some (loss_cross rnd),
      loss_params = Some (loss_params_cross rnd a)\<rparr>"
  "cell12 rnd a ''cosh'' = \<lparr>cross = Some False, loss = Some (loss_cosh rnd),
      loss_params = Some (loss_params_cosh rnd a)\<rparr>"
  "name \<noteq> ''mse'' \<Longrightarrow> name \<noteq> ''cross'' \<Longrightarrow> name \<noteq> ''cosh'' \<Longrightarrow> cell12 rnd a name = unbound"
  by (simp_all add: cell12_def)

text \<open>
  C6.  The loss has exactly three forms, selected by the names \<open>mse\<close>, \<open>cross\<close> and
  \<open>cosh\<close>; any other name selects none.  For every matrix of predictions and every
  matrix of targets the three fail when the two shapes cannot be broadcast, and otherwise
  return, over the broadcast shape: half the sum of the squared differences; the negated
  sum of the targets times the log-softmax of the predictions (each prediction minus the
  logarithm of the sum of the exponentials of its row); the sum of the logarithm of the
  hyperbolic cosine of the differences.  This holds with the result of every array
  operation rounded, whatever the rounding is, and without rounding it gives these
  forms over the reals.  In each case the loss on the parameters is the loss functional
  applied to what the network evaluator returns.
\<close>

theorem loss_forms:
  "loss_mse rnd preds targets =
     bind_e (broadcast_dim (nrows preds) (nrows targets)) (\<lambda>n.
     bind_e (broadcast_dim (ncols preds) (ncols targets)) (\<lambda>m.
       Inr (rnd (1 / 2 * rnd (\<Sum>i\<leftarrow>[0..<n]. \<Sum>j\<leftarrow>[0..<m].
                  rnd ((rnd (bcast preds i j - bcast targets i j))\<^sup>2))))))
   \<and> loss_cross rnd preds targets =
     bind_e (broadcast_dim (nrows preds) (nrows targets)) (\<lambda>n.
     bind_e (broadcast_dim (ncols preds) (ncols targets)) (\<lambda>m.
       Inr (- rnd (\<Sum>i\<leftarrow>[0..<n]. \<Sum>j\<leftarrow>[0..<m].
                  rnd (rnd (bcast preds i j
                            - ln (\<Sum>k\<leftarrow>[0..<ncols preds]. exp (entry preds (bidx (nrows preds) i) k)))
                       * bcast targets i j)))))
   \<and> loss_cosh rnd preds targets =
     bind_e (broadcast_dim (nrows preds) (nrows targets)) (\<lambda>n.
     bind_e (broadcast_dim (ncols preds) (ncols targets)) (\<lambda>m.
       Inr (rnd (\<Sum>i\<leftarrow>[0..<n]. \<Sum>j\<leftarrow>[0..<m].
                  rnd (ln (rnd (cosh (rnd (bcast preds i j - bcast targets i j)))))))))
   \<and> loss_mse exact preds targets =
     bind_e (broadcast_dim (nrows preds) (nrows targets)) (\<lambda>n.
     bind_e (broadcast_dim (ncols preds) (ncols targets)) (\<lambda>m.
       Inr ((\<Sum>i\<leftarrow>[0..<n]. \<Sum>j\<leftarrow>[0..<m]. (bcast preds i j - bcast targets i j)\<^sup>2) / 2)))
   \<and> loss_cross exact preds targets =
     bind_e (broadcast_dim (nrows preds) (nrows targets)) (\<lambda>n.
     bind_e (broadcast_dim (ncols preds) (ncols targets)) (\<lambda>m.
       Inr (- (\<Sum>i\<leftarrow>[0..<n]. \<Sum>j\<leftarrow>[0..<m].
                 (bcast preds i j
                    - ln (\<Sum>k\<leftarrow>[0..<ncols preds]. exp (entry preds (bidx (nrows preds) i) k)))
                 * bcast targets i j))))
   \<and> loss_cosh exact preds targets =
     bind_e (broadcast_dim (nrows preds) (nrows targets)) (\<lambda>n.
     bind_e (broadcast_dim (ncols preds) (ncols targets)) (\<lambda>m.
       Inr (\<Sum>i\<leftarrow>[0..<n]. \<Sum>j\<leftarrow>[0..<m]. ln (cosh (bcast preds i j - bcast targets i j)))))
   \<and> loss (cell12 rnd a name) =
       (if name = ''mse'' then Some (loss_mse rnd)
        else if name = ''cross'' then Some (loss_cross rnd)
        else if name = ''cosh'' then Some (loss_cosh rnd)
        else None)
   \<and> loss_params (cell12 rnd a name) =
       map_option (\<lambda>l ps xs ys. bind_e (a ps xs) (\<lambda>out. l out ys)) (loss (cell12 rnd a name))"
proof -
  have dispatch: "loss (cell12 rnd a name) =
       (if name = ''mse'' then Some (loss_mse rnd)
        else if name = ''cross'' then Some (loss_cross rnd)
        else if name = ''cosh'' then Some (loss_cosh rnd)
        else None)"
    by (simp add: cell12_cases unbound_def)
  have compose: "loss_params (cell12 rnd a name) =
       map_option (\<lambda>l ps xs ys. bind_e (a ps xs) (\<lambda>out. l out ys)) (loss (cell12 rnd a name))"
  proof -
    consider "name = ''mse''" | "name = ''cross''" | "name = ''cosh''"
      | "name \<noteq> ''mse''" "name \<noteq> ''cross''" "name \<noteq> ''cosh''"
      by blast
    then show ?thesis
    proof cases
      case 1 then show ?thesis by (simp add: cell12_cases loss_params_compose)
    next
      case 2 then show ?thesis by (simp add: cell12_cases loss_params_compose)
    next
      case 3 then show ?thesis by (simp add: cell12_cases loss_params_compose)
    next
      case 4 then show ?thesis by (simp add: cell12_cases unbound_def)
    qed
  qed
  have mse: "loss_mse exact preds targets =
     bind_e (broadcast_dim (nrows preds) (nrows targets)) (\<lambda>n.
     bind_e (broadcast_dim (ncols preds) (ncols targets)) (\<lambda>m.
       Inr ((\<Sum>i\<leftarrow>[0..<n]. \<Sum>j\<leftarrow>[0..<m]. (bcast preds i j - bcast targets i j)\<^sup>2) / 2)))"
    unfolding loss_mse_form by simp
  have crs: "loss_cross exact preds targets =
     bind_e (broadcast_dim (nrows preds) (nrows targets)) (\<lambda>n.
     bind_e (broadcast_dim (ncols preds) (ncols targets)) (\<lambda>m.
       Inr (- (\<Sum>i\<leftarrow>[0..<n]. \<Sum>j\<leftarrow>[0..<m].
                 (bcast preds i j
                    - ln (\<Sum>k\<leftarrow>[0..<ncols preds]. exp (entry preds (bidx (nrows preds) i) k)))
                 * bcast targets i j))))"
    unfolding loss_cross_form by simp
  have csh: "loss_cosh exact preds targets =
     bind_e (broadcast_dim (nrows preds) (nrows targets)) (\<lambda>n.
     bind_e (broadcast_dim (ncols preds) (ncols targets)) (\<lambda>m.
       Inr (\<Sum>i\<leftarrow>[0..<n]. \<Sum>j\<leftarrow>[0..<m]. ln (cosh (bcast preds i j - bcast targets i j)))))"
    unfolding loss_cosh_form by simp
  show ?thesis
    using loss_mse_form [of rnd preds targets] loss_cross_form [of rnd preds targets]
      loss_cosh_form [of rnd preds targets] mse crs csh dispatch compose
    by (intro conjI)
qed

theorem loss_forms_witness:
  "loss_mse exact \<lparr>nrows = 2, ncols = 2, rows = [[1, 2], [3, 4]]\<rparr> \<lparr>nrows = 1, ncols = 2, rows = [[1, 1]]\<rparr>
     = Inr 7
   \<and> loss_cosh exact \<lparr>nrows = 1, ncols = 2, rows = [[3, 1]]\<rparr> \<lparr>nrows = 1, ncols = 2, rows = [[1, 1]]\<rparr>
     = Inr (ln (cosh 2))
   \<and> loss_cross exact \<lparr>nrows = 1, ncols = 2, rows = [[3, 1]]\<rparr> \<lparr>nrows = 1, ncols = 2, rows = [[1, 1]]\<rparr>
     = Inr (- (3 - ln (exp 3 + exp 1) + (1 - ln (exp 3 + exp 1))))
   \<and> loss_mse exact \<lparr>nrows = 2, ncols = 2, rows = [[1, 2], [3, 4]]\<rparr> \<lparr>nrows = 1, ncols = 3, rows = [[1, 1, 1]]\<rparr>
     = Inl IncompatibleShapes"
proof -
  let ?P = "\<lparr>nrows = 2, ncols = 2, rows = [[1, 2], [3, 4]]\<rparr>"
  let ?T = "\<lparr>nrows = 1, ncols = 2, rows = [[1, 1]]\<rparr>"
  let ?Q = "\<lparr>nrows = 1, ncols = 2, rows = [[3, 1]]\<rparr>"
  let ?U = "\<lparr>nrows = 1, ncols = 3, rows = [[1, 1, 1]]\<rparr>"
  show ?thesis
    using loss_forms [of exact ?P ?T toy_apply "''mse''"] loss_forms [of exact ?Q ?T toy_apply "''mse''"]
      loss_forms [of exact ?P ?U toy_apply "''mse''"]
    by (simp add: broadcast_dim_def bcast_def bidx_def entry_def upt_small)
qed

subsection \<open>Exact additions in any order\<close>

lemma madd_exact: "madd exact = elementwise (+)"
  by (simp add: madd_def exact_def [abs_def])

lemma broadcast_dim_error: "broadcast_dim a b = Inl e \<Longrightarrow> e = IncompatibleShapes"
  by (auto simp: broadcast_dim_def split: if_splits)

lemma elementwise_error: "elementwise f A B = Inl e \<Longrightarrow> e = IncompatibleShapes"
  by (auto simp: elementwise_def bind_e_def split: sum.splits dest: broadcast_dim_error)

lemma broadcast_dim_swap:
  "bind_e (broadcast_dim a x) (\<lambda>n. broadcast_dim n y) =
   bind_e (broadcast_dim a y) (\<lambda>n. broadcast_dim n x)"
  by (auto simp: broadcast_dim_def)

lemma bidx_nested:
  assumes "broadcast_dim a x = Inr n1" "broadcast_dim n1 y = Inr n" "i < n"
  shows "bidx n1 i < n1" "bidx a (bidx n1 i) = bidx a i" "bidx x (bidx n1 i) = bidx x i"
  using assms by (auto simp: broadcast_dim_def bidx_def split: if_splits)

lemma add2_error: "add2 A X Y = Inl e \<Longrightarrow> e = IncompatibleShapes"
  by (auto simp: add2_def bind_e_def split: sum.splits dest: broadcast_dim_error)

lemma add2_swap: "add2 A X Y = add2 A Y X"
  unfolding add2_def broadcast_dim_swap [of _ "nrows X"] broadcast_dim_swap [of _ "ncols X"]
  by (simp add: add.commute)

lemma madd_twice_Inr:
  assumes "madd exact A X = Inr B" "madd exact B Y = Inr C"
  shows "add2 A X Y = Inr C"
proof -
  from assms(1) obtain n1 m1 where
    n1: "broadcast_dim (nrows A) (nrows X) = Inr n1" and
    m1: "broadcast_dim (ncols A) (ncols X) = Inr m1" and
    B: "B = tabulate2 n1 m1 (\<lambda>i j. entry A (bidx (nrows A) i) (bidx (ncols A) j)
                                    + entry X (bidx (nrows X) i) (bidx (ncols X) j))"
    unfolding madd_exact elementwise_Inr by blast
  from assms(2) obtain n m where
    n: "broadcast_dim (nrows B) (nrows Y) = Inr n" and
    m: "broadcast_dim (ncols B) (ncols Y) = Inr m" and
    C: "C = tabulate2 n m (\<lambda>i j. entry B (bidx (nrows B) i) (bidx (ncols B) j)
                                    + entry Y (bidx (nrows Y) i) (bidx (ncols Y) j))"
    unfolding madd_exact elementwise_Inr by blast
  have n': "broadcast_dim n1 (nrows Y) = Inr n" and m': "broadcast_dim m1 (ncols Y) = Inr m"
    using n m by (simp_all add: B)
  have "C = tabulate2 n m (\<lambda>i j.
         entry A (bidx (nrows A) i) (bidx (ncols A) j)
         + (entry X (bidx (nrows X) i) (bidx (ncols X) j)
            + entry Y (bidx (nrows Y) i) (bidx (ncols Y) j)))"
    unfolding C
  proof (rule tabulate2_cong)
    fix i j assume i: "i < n" and j: "j < m"
    note ri = bidx_nested [OF n1 n' i] and cj = bidx_nested [OF m1 m' j]
    show "entry B (bidx (nrows B) i) (bidx (ncols B) j) + entry Y (bidx (nrows Y) i) (bidx (ncols Y) j)
        = entry A (bidx (nrows A) i) (bidx (ncols A) j)
         + (entry X (bidx (nrows X) i) (bidx (ncols X) j)
            + entry Y (bidx (nrows Y) i) (bidx (ncols Y) j))"
      using ri cj by (simp add: B)
  qed
  then show ?thesis
    by (simp add: add2_def n1 m1 n' m')
qed

lemma madd_twice_Inl:
  assumes "add2 A X Y = Inr C"
  shows "\<exists>B. madd exact A X = Inr B \<and> madd exact B Y = Inr C"
proof -
  from assms obtain n1 n m1 m where
    n1: "broadcast_dim (nrows A) (nrows X) = Inr n1" and n: "broadcast_dim n1 (nrows Y) = Inr n" and
    m1: "broadcast_dim (ncols A) (ncols X) = Inr m1" and m: "broadcast_dim m1 (ncols Y) = Inr m"
    by (auto simp: add2_def bind_e_eq_Inr)
  obtain B where B: "madd exact A X = Inr B" and dB: "nrows B = n1" "ncols B = m1"
    by (auto simp: madd_exact elementwise_def n1 m1)
  obtain C' where C': "madd exact B Y = Inr C'"
    by (auto simp: madd_exact elementwise_def dB n m)
  from madd_twice_Inr [OF B C'] assms have "C' = C" by simp
  with B C' show ?thesis by blast
qed

lemma madd_twice: "bind_e (madd exact A X) (\<lambda>B. madd exact B Y) = add2 A X Y"
proof (cases "add2 A X Y")
  case (Inr C)
  from madd_twice_Inl [OF Inr] show ?thesis by (auto simp: Inr)
next
  case (Inl e)
  then have e: "e = IncompatibleShapes" by (rule add2_error)
  show ?thesis
  proof (cases "madd exact A X")
    case (Inl e')
    then show ?thesis
      using elementwise_error [of "(+)" A X e'] \<open>add2 A X Y = Inl e\<close> e by (simp add: madd_exact)
  next
    case B: (Inr B)
    show ?thesis
    proof (cases "madd exact B Y")
      case (Inl e')
      then show ?thesis
        using elementwise_error [of "(+)" B Y e'] \<open>add2 A X Y = Inl e\<close> e B by (simp add: madd_exact)
    next
      case (Inr C)
      from madd_twice_Inr [OF B Inr] \<open>add2 A X Y = Inl e\<close> show ?thesis by simp
    qed
  qed
qed

lemma madd_swap:
  "bind_e (madd exact A X) (\<lambda>B. madd exact B Y) = bind_e (madd exact A Y) (\<lambda>B. madd exact B X)"
  by (simp add: madd_twice add2_swap)

subsection \<open>The accumulation loop\<close>

lemma lookup_Inr: "lookup name v = Inr x \<longleftrightarrow> v = Some x"
  by (cases v) (simp_all add: lookup_def)

lemma loop_body_contributions:
  "contributions deps env a params b = Inr t \<Longrightarrow>
   loop_body deps env a params acc b = add_contributions (rounding deps) acc t"
  by (cases b) (auto simp: contributions_def loop_body_def add_contributions_def bind_e_eq_Inr)

lemma loop_body_Inr:
  "loop_body deps env a params acc b = Inr acc' \<Longrightarrow> \<exists>t. contributions deps env a params b = Inr t"
  by (cases b) (auto simp: contributions_def loop_body_def bind_e_eq_Inr)

lemma contributions_Inr:
  "contributions deps env a params (x, y) = Inr (g, h, out) \<longleftrightarrow>
     matmul (rounding deps) (mat_T x) x = Inr g \<and>
     (\<exists>lp l c. loss_params env = Some lp \<and> loss env = Some l \<and> cross env = Some c \<and>
        loss_hessian deps lp params x y = Inr h \<and> outer_prod deps l a params x y c = Inr out)"
  by (auto simp: contributions_def bind_e_eq_Inr lookup_Inr)

lemma add_contributions_error: "add_contributions rnd acc t = Inl e \<Longrightarrow> e = IncompatibleShapes"
  by (cases t) (auto simp: add_contributions_def bind_e_def madd_def split: sum.splits dest: elementwise_error)

lemma add_contributions_Inr:
  "add_contributions rnd acc (g, h, out) = Inr acc' \<longleftrightarrow>
     madd rnd (cov acc) g = Inr (cov acc') \<and> madd rnd (H_L acc) h = Inr (H_L acc') \<and>
     madd rnd (H_outer acc) out = Inr (H_outer acc')"
  by (cases acc') (auto simp: add_contributions_def bind_e_eq_Inr)

lemma bind_madd_Inr:
  "bind_e (madd rnd A X) (\<lambda>B. madd rnd B Y) = Inr C \<longleftrightarrow> (\<exists>B. madd rnd A X = Inr B \<and> madd rnd B Y = Inr C)"
  by (simp add: bind_e_eq_Inr)

lemma add_contributions_twice_Inr:
  "bind_e (add_contributions exact acc (g1, h1, o1)) (\<lambda>acc'. add_contributions exact acc' (g2, h2, o2)) = Inr r \<longleftrightarrow>
     bind_e (madd exact (cov acc) g1) (\<lambda>B. madd exact B g2) = Inr (cov r) \<and>
     bind_e (madd exact (H_L acc) h1) (\<lambda>B. madd exact B h2) = Inr (H_L r) \<and>
     bind_e (madd exact (H_outer acc) o1) (\<lambda>B. madd exact B o2) = Inr (H_outer r)"
  (is "?L \<longleftrightarrow> ?R")
proof
  assume ?L
  then obtain acc' where 1: "add_contributions exact acc (g1, h1, o1) = Inr acc'"
    and 2: "add_contributions exact acc' (g2, h2, o2) = Inr r"
    by (auto simp: bind_e_eq_Inr)
  show ?R
    using 1 2 unfolding add_contributions_Inr bind_madd_Inr by blast
next
  assume ?R
  then obtain c hl ho where
    c: "madd exact (cov acc) g1 = Inr c" "madd exact c g2 = Inr (cov r)" and
    hl: "madd exact (H_L acc) h1 = Inr hl" "madd exact hl h2 = Inr (H_L r)" and
    ho: "madd exact (H_outer acc) o1 = Inr ho" "madd exact ho o2 = Inr (H_outer r)"
    unfolding bind_madd_Inr by blast
  have "add_contributions exact acc (g1, h1, o1) = Inr \<lparr>cov = c, H_L = hl, H_outer = ho\<rparr>"
    by (simp add: add_contributions_Inr c hl ho)
  moreover have "add_contributions exact \<lparr>cov = c, H_L = hl, H_outer = ho\<rparr> (g2, h2, o2) = Inr r"
    by (simp add: add_contributions_Inr c hl ho)
  ultimately show ?L by simp
qed

lemma add_contributions_twice_error:
  assumes "bind_e (add_contributions exact acc t1) (\<lambda>acc'. add_contributions exact acc' t2) = Inl e"
  shows "e = IncompatibleShapes"
proof (cases "add_contributions exact acc t1")
  case (Inl e')
  with assms add_contributions_error [OF Inl] show ?thesis by simp
next
  case (Inr acc')
  with assms have "add_contributions exact acc' t2 = Inl e" by simp
  then show ?thesis by (rule add_contributions_error)
qed

lemma add_contributions_swap:
  "bind_e (add_contributions exact acc t1) (\<lambda>acc'. add_contributions exact acc' t2) =
   bind_e (add_contributions exact acc t2) (\<lambda>acc'. add_contributions exact acc' t1)"
  (is "?L = ?R")
proof -
  obtain g1 h1 o1 g2 h2 o2 where t: "t1 = (g1, h1, o1)" "t2 = (g2, h2, o2)"
    by (cases t1, cases t2) auto
  have iff: "?L = Inr r \<longleftrightarrow> ?R = Inr r" for r
    unfolding t add_contributions_twice_Inr madd_swap [of _ g1 g2] madd_swap [of _ h1 h2]
      madd_swap [of _ o1 o2] ..
  have errL: "?L = Inl e \<Longrightarrow> e = IncompatibleShapes" for e
    by (rule add_contributions_twice_error)
  have errR: "?R = Inl e \<Longrightarrow> e = IncompatibleShapes" for e
    by (rule add_contributions_twice_error)
  show ?thesis
  proof (cases ?L)
    case (Inr r)
    with iff [of r] show ?thesis by simp
  next
    case L: (Inl e)
    show ?thesis
    proof (cases ?R)
      case (Inr r)
      with iff [of r] L show ?thesis by simp
    next
      case (Inl e')
      with L errL [of e] errR [of e'] show ?thesis by simp
    qed
  qed
qed

lemma step_commute: "step t1 \<circ> step t2 = step t2 \<circ> step t1"
proof
  fix st
  show "(step t1 \<circ> step t2) st = (step t2 \<circ> step t1) st"
    by (cases st) (simp_all add: step_def add_contributions_swap [of _ t1 t2])
qed

lemma fold_step_Inl: "fold step ts (Inl e) = Inl e"
  by (induction ts) (simp_all add: step_def)

lemma step_Inr: "step t (Inr acc) = add_contributions exact acc t"
  by (simp add: step_def)

lemma accumulate_fold:
  assumes exact: "rounding deps = exact"
    and "\<And>b. b \<in> set batches \<Longrightarrow> contributions deps env a params b = Inr (t b)"
  shows "accumulate (loop_body deps env a params) acc batches = fold step (map t batches) (Inr acc)"
  using assms
proof (induction batches arbitrary: acc)
  case Nil
  show ?case by simp
next
  case (Cons b bs)
  have b: "loop_body deps env a params acc b = add_contributions exact acc (t b)"
    using Cons.prems(2) [of b] loop_body_contributions [of deps env a params b "t b" acc]
    by (simp add: exact)
  show ?case
  proof (cases "add_contributions exact acc (t b)")
    case (Inr acc')
    then show ?thesis
      using Cons.IH [of acc'] Cons.prems by (simp add: b step_Inr exact)
  next
    case (Inl e)
    then show ?thesis by (simp add: b step_Inr fold_step_Inl)
  qed
qed

lemma accumulate_Inr_contributions:
  "accumulate (loop_body deps env a params) acc batches = Inr r \<Longrightarrow> b \<in> set batches \<Longrightarrow>
   \<exists>t. contributions deps env a params b = Inr t"
proof (induction batches arbitrary: acc)
  case Nil
  then show ?case by simp
next
  case (Cons x xs)
  from Cons.prems(1) obtain acc' where
    x: "loop_body deps env a params acc x = Inr acc'" and
    xs: "accumulate (loop_body deps env a params) acc' xs = Inr r"
    by (auto simp: bind_e_eq_Inr)
  show ?case
  proof (cases "b = x")
    case True
    with loop_body_Inr [OF x] show ?thesis by simp
  next
    case False
    with Cons.prems(2) have "b \<in> set xs" by simp
    from Cons.IH [OF xs this] show ?thesis .
  qed
qed

lemma accumulate_permute:
  assumes exact: "rounding deps = exact"
    and perm: "mset batches' = mset batches"
    and run: "accumulate (loop_body deps env a params) acc batches = Inr r"
  shows "accumulate (loop_body deps env a params) acc batches' = Inr r"
proof -
  define t where "t b = projr (contributions deps env a params b)" for b
  have ok: "contributions deps env a params b = Inr (t b)" if "b \<in> set batches" for b
    using accumulate_Inr_contributions [OF run that] by (auto simp: t_def)
  have set_eq: "set batches' = set batches"
    using perm by (rule mset_eq_setD)
  have "accumulate (loop_body deps env a params) acc batches' = fold step (map t batches') (Inr acc)"
    by (rule accumulate_fold [OF exact]) (simp add: ok set_eq)
  also have "fold step (map t batches') = fold step (map t batches)"
    by (rule fold_multiset_equiv) (simp_all add: step_commute perm)
  also have "fold step (map t batches) (Inr acc) = accumulate (loop_body deps env a params) acc batches"
    by (rule accumulate_fold [OF exact, symmetric]) (simp add: ok)
  finally show ?thesis
    using run by simp
qed

lemma jnp_zeros_Inr:
  "jnp_zeros n m = Inr Z \<longleftrightarrow> 0 \<le> n \<and> 0 \<le> m \<and> Z = tabulate2 (nat n) (nat m) (\<lambda>i j. 0)"
  by (auto simp: jnp_zeros_def)

lemma init_accumulators_Inr:
  "init_accumulators p d = Inr acc0 \<longleftrightarrow>
     0 \<le> p \<and> 0 \<le> d \<and>
     acc0 = \<lparr>cov = tabulate2 (nat d) (nat d) (\<lambda>i j. 0),
             H_L = tabulate2 (nat p) (nat p) (\<lambda>i j. 0),
             H_outer = tabulate2 (nat p) (nat p) (\<lambda>i j. 0)\<rparr>"
  by (auto simp: init_accumulators_def bind_e_eq_Inr jnp_zeros_Inr)

lemma cell14_Inr:
  "cell14 deps env a params p d batches = Inr (acc, H_F) \<longleftrightarrow>
     (\<exists>acc0. init_accumulators p d = Inr acc0 \<and>
        accumulate (loop_body deps env a params) acc0 batches = Inr acc \<and>
        msub (rounding deps) (H_L acc) (H_outer acc) = Inr H_F)"
  by (auto simp: cell14_def bind_e_eq_Inr)

lemma loop_body_square:
  assumes body: "loop_body deps env a params acc b = Inr acc'"
    and contract: "hessians_p_by_p deps env a params p b"
    and inv: "hessians_square (nat p) acc"
  shows "hessians_square (nat p) acc'"
proof -
  obtain x y where b: "b = (x, y)" by (cases b)
  from loop_body_Inr [OF body] obtain g h out where
    t: "contributions deps env a params (x, y) = Inr (g, h, out)"
    unfolding b by (metis prod_cases3)
  then obtain lp l c where env: "loss_params env = Some lp" "loss env = Some l" "cross env = Some c"
    and h: "loss_hessian deps lp params x y = Inr h"
    and out: "outer_prod deps l a params x y c = Inr out"
    unfolding contributions_Inr by blast
  from contract have dims: "nrows h = nat p" "ncols h = nat p" "nrows out = nat p" "ncols out = nat p"
    by (simp_all add: hessians_p_by_p_def b env h out shaped_def)
  from body have "add_contributions (rounding deps) acc (g, h, out) = Inr acc'"
    using loop_body_contributions [OF t, of acc] by (simp add: b)
  then have HL: "madd (rounding deps) (H_L acc) h = Inr (H_L acc')"
    and HO: "madd (rounding deps) (H_outer acc) out = Inr (H_outer acc')"
    by (simp_all add: add_contributions_Inr)
  from inv have A: "nrows (H_L acc) = nat p" "ncols (H_L acc) = nat p"
      "nrows (H_outer acc) = nat p" "ncols (H_outer acc) = nat p"
    by (simp_all add: hessians_square_def)
  show ?thesis
    using madd_Inr_dims [OF HL A(1,2) dims(1,2)] madd_Inr_dims [OF HO A(3,4) dims(3,4)]
    by (simp add: hessians_square_def)
qed

lemma accumulate_square:
  assumes "accumulate (loop_body deps env a params) acc batches = Inr acc'"
    and "list_all (hessians_p_by_p deps env a params p) batches"
    and "hessians_square (nat p) acc"
  shows "hessians_square (nat p) acc'"
  using assms
proof (induction batches arbitrary: acc)
  case Nil
  then show ?case by simp
next
  case (Cons b bs)
  from Cons.prems(1) obtain acc1 where
    b: "loop_body deps env a params acc b = Inr acc1" and
    bs: "accumulate (loop_body deps env a params) acc1 bs = Inr acc'"
    by (auto simp: bind_e_eq_Inr)
  from Cons.prems(2) have cb: "hessians_p_by_p deps env a params p b"
    and cbs: "list_all (hessians_p_by_p deps env a params p) bs"
    by simp_all
  from loop_body_square [OF b cb Cons.prems(3)] have "hessians_square (nat p) acc1" .
  from Cons.IH [OF bs cbs this] show ?case .
qed

lemma accumulate_trace_Inr:
  assumes "accumulate body acc batches = Inr r"
  shows "\<exists>tr. accumulate_trace body acc batches = Inr tr \<and> length tr = length batches + 1
           \<and> hd tr = acc \<and> last tr = r
           \<and> (\<forall>k<length batches. body (tr ! k) (batches ! k) = Inr (tr ! Suc k))"
  using assms
proof (induction batches arbitrary: acc)
  case Nil
  then show ?case by simp
next
  case (Cons b bs)
  from Cons.prems obtain acc1 where
    b: "body acc b = Inr acc1" and bs: "accumulate body acc1 bs = Inr r"
    by (auto simp: bind_e_eq_Inr)
  from Cons.IH [OF bs] obtain tr where
    tr: "accumulate_trace body acc1 bs = Inr tr" "length tr = length bs + 1"
      "hd tr = acc1" "last tr = r"
      and steps: "\<And>k. k < length bs \<Longrightarrow> body (tr ! k) (bs ! k) = Inr (tr ! Suc k)"
    by blast
  from tr(2) have ne: "tr \<noteq> []" by auto
  have "body ((acc # tr) ! k) ((b # bs) ! k) = Inr ((acc # tr) ! Suc k)"
    if "k < length (b # bs)" for k
  proof (cases k)
    case 0
    with b tr(3) ne show ?thesis by (simp add: hd_conv_nth)
  next
    case (Suc j)
    with that steps [of j] show ?thesis by simp
  qed
  then show ?case
    using tr ne b by (intro exI [of _ "acc # tr"]) simp
qed

lemma notebook_Inr:
  "notebook deps cfg = Inr R \<longleftrightarrow>
     (\<exists>batches params acc H_F rk P.
        train_loader deps (n_train cfg) (dim cfg) (classes cfg) (bs cfg) = Inr batches \<and>
        init_params deps (widths cfg) (classes cfg) (dim cfg) = Inr params \<and>
        cell14 deps (cell12 (rounding deps) (net_apply deps (widths cfg) (classes cfg)) (loss_name cfg))
          (net_apply deps (widths cfg) (classes cfg)) params
          (param_count ([dim cfg] @ widths cfg @ [classes cfg])) (dim cfg) batches = Inr (acc, H_F) \<and>
        cell15 deps acc H_F = Inr rk \<and>
        cell17 (loss_name cfg) (rank_cov rk) (classes cfg) (widths cfg)
          = Inr (adjust_classes (loss_name cfg) (classes cfg), P) \<and>
        R = \<lparr>run_p = param_count ([dim cfg] @ widths cfg @ [classes cfg]),
             run_batches = batches, run_params = params, run_acc = acc, run_H_F = H_F,
             run_ranks = rk,
             run_classes = adjust_classes (loss_name cfg) (classes cfg),
             run_predictions = P\<rparr>)"
  by (auto simp: notebook_def Let_def bind_e_eq_Inr cell17_def)

lemma cell17_Inr:
  "cell17 name r k ws = Inr (k', P) \<longleftrightarrow>
     k' = adjust_classes name k \<and> bound_predictor r (adjust_classes name k) ws = Inr P"
  by (auto simp: cell17_def Let_def bind_e_eq_Inr)

subsection \<open>The small instance, run\<close>

lemmas toy_eval =
  cell14_def init_accumulators_def jnp_zeros_def loop_body_def toy_batch1_def toy_batch2_def
  toy_collaborators_def toy_apply_def exact_def lookup_def matmul_def mat_T_def madd_def msub_def elementwise_def
  broadcast_dim_def bidx_def tabulate2_def entry_def upt_small toy_acc_def toy_H_F_def

lemma toy_cell14:
  assumes "loss_params env \<noteq> None" "loss env \<noteq> None" "cross env \<noteq> None"
  shows "cell14 toy_collaborators env a [] 2 1 [toy_batch1, toy_batch2] = Inr (toy_acc, toy_H_F)"
    and "cell14 toy_collaborators env a [] 2 1 [toy_batch2, toy_batch1] = Inr (toy_acc, toy_H_F)"
proof -
  from assms obtain lp l c where "loss_params env = Some lp" "loss env = Some l" "cross env = Some c"
    by auto
  then show "cell14 toy_collaborators env a [] 2 1 [toy_batch1, toy_batch2] = Inr (toy_acc, toy_H_F)"
    and "cell14 toy_collaborators env a [] 2 1 [toy_batch2, toy_batch1] = Inr (toy_acc, toy_H_F)"
    by (simp_all add: toy_eval)
qed

lemma toy_contract:
  "list_all (hessians_p_by_p toy_collaborators env a [] 2) [toy_batch1, toy_batch2]"
  by (simp add: hessians_p_by_p_def shaped_def toy_collaborators_def toy_batch1_def toy_batch2_def
      split: option.splits)

lemma toy_notebook:
  "notebook toy_collaborators toy_config =
     Inr (toy_run 2 \<lparr>s = 1, q = 1, pred_F = 1, pred_outer = 2, pred_L = 2\<rparr>)"
  "notebook toy_collaborators (toy_config\<lparr>loss_name := ''cross''\<rparr>) =
     Inr (toy_run 1 \<lparr>s = 1, q = 1, pred_F = 1, pred_outer = 1, pred_L = 1\<rparr>)"
proof -
  have net: "net_apply toy_collaborators ws k = toy_apply" for ws k
    by (simp add: toy_collaborators_def)
  have loader: "train_loader toy_collaborators n d k b = Inr [toy_batch1, toy_batch2]" for n d k b
    by (simp add: toy_collaborators_def)
  have init: "init_params toy_collaborators ws k d = Inr []" for ws k d
    by (simp add: toy_collaborators_def)
  have rk: "cell15 toy_collaborators toy_acc toy_H_F =
              Inr \<lparr>rank_cov = 1, rank_L = 2, rank_outer = 2, rank_F = 2\<rparr>"
    by (simp add: cell15_def jnp_matrix_rank_def toy_collaborators_def toy_acc_def toy_H_F_def)
  have rnd: "rounding toy_collaborators = exact"
    by (simp add: toy_collaborators_def)
  have c17: "cell17 ''mse'' 1 2 [] = Inr (2, \<lparr>s = 1, q = 1, pred_F = 1, pred_outer = 2, pred_L = 2\<rparr>)"
    "cell17 ''cross'' 1 2 [] = Inr (1, \<lparr>s = 1, q = 1, pred_F = 1, pred_outer = 1, pred_L = 1\<rparr>)"
    by code_simp+
  have c14: "cell14 toy_collaborators (cell12 exact toy_apply name) toy_apply [] 2 1
               [toy_batch1, toy_batch2] = Inr (toy_acc, toy_H_F)"
    if "name = ''mse'' \<or> name = ''cross''" for name
    using that by (intro toy_cell14) (auto simp: cell12_cases)
  have p: "param_count [1, 2] = 2"
    by (simp add: param_count_def upt_small)
  show "notebook toy_collaborators toy_config =
     Inr (toy_run 2 \<lparr>s = 1, q = 1, pred_F = 1, pred_outer = 2, pred_L = 2\<rparr>)"
    by (simp add: notebook_def toy_config_def net loader init p c14 rk rnd c17 toy_run_def)
  show "notebook toy_collaborators (toy_config\<lparr>loss_name := ''cross''\<rparr>) =
     Inr (toy_run 1 \<lparr>s = 1, q = 1, pred_F = 1, pred_outer = 1, pred_L = 1\<rparr>)"
    by (simp add: notebook_def toy_config_def net loader init p c14 rk rnd c17 toy_run_def)
qed

subsection \<open>Rounding to double precision\<close>

lemma round_half_even_of_int [simp]: "round_half_even (of_int n) = n"
  by (simp add: round_half_even_def)

lemma round_half_even_tie: "even n \<Longrightarrow> round_half_even (of_int n + 1 / 2) = n"
proof -
  have "\<lfloor>of_int n + (1 / 2 :: real)\<rfloor> = n"
    by linarith
  then show "even n \<Longrightarrow> round_half_even (of_int n + 1 / 2) = n"
    by (simp add: round_half_even_def Let_def)
qed

lemma binary64_zero [simp]: "binary64 0 = 0"
  by (simp add: binary64_def)

lemma binary64_between:
  assumes "2 ^ k \<le> x" "x < 2 ^ Suc k"
  shows "binary64 x = of_int (round_half_even (x / 2 powr (int k - 52))) * 2 powr (int k - 52)"
proof -
  have pos: "0 < x"
    using assms(1) by (smt (verit) zero_less_power)
  have "\<lfloor>log 2 x\<rfloor> = int k"
    using assms pos by (simp add: floor_log_eq_powr_iff powr_add powr_realpow)
  with pos show ?thesis
    by (simp add: binary64_def Let_def)
qed

lemma binary64_values:
  "binary64 1 = 1"
  "binary64 2 = 2"
  "binary64 10000000000000000 = 10000000000000000"
  "binary64 10000000000000001 = 10000000000000000"
  "binary64 10000000000000002 = 10000000000000002"
proof -
  have p: "(2::real) powr (- 52) = 1 / 4503599627370496" "(2::real) powr (- 51) = 1 / 2251799813685248"
    by (simp_all add: powr_neg_numeral)
  show "binary64 1 = 1"
    using binary64_between [of 0 1] round_half_even_of_int [of 4503599627370496]
    by (simp add: p)
  show "binary64 2 = 2"
    using binary64_between [of 1 2] round_half_even_of_int [of 4503599627370496]
    by (simp add: p)
  have u: "(2::real) powr (int 53 - 52) = 2"
    by simp
  show "binary64 10000000000000000 = 10000000000000000"
    using binary64_between [of 53 10000000000000000] round_half_even_of_int [of 5000000000000000]
    by (simp add: u)
  show "binary64 10000000000000002 = 10000000000000002"
    using binary64_between [of 53 10000000000000002] round_half_even_of_int [of 5000000000000001]
    by (simp add: u)
  have "round_half_even (10000000000000001 / 2) = 5000000000000000"
    using round_half_even_tie [of 5000000000000000] by simp
  then show "binary64 10000000000000001 = 10000000000000000"
    using binary64_between [of 53 10000000000000001]
    by (simp add: u)
qed

lemmas double_eval =
  cell14_def init_accumulators_def jnp_zeros_def loop_body_def big_batch_def unit_batch_def zeros2_def
  double_collaborators_def toy_apply_def lookup_def matmul_def mat_T_def madd_def msub_def
  elementwise_def broadcast_dim_def bidx_def tabulate2_def entry_def upt_small cell12_cases
  binary64_values

subsection \<open>The Hessians\<close>

text \<open>
  C3.  In exact arithmetic, when the imported Hessian routines return \<open>p \<times> p\<close> matrices
  for the batches of the run, the functional Hessian that the cell returns is the
  accumulated full Hessian minus the accumulated outer-product Hessian, and adding the
  outer-product Hessian back to it gives the full Hessian again, entry for entry.
\<close>

theorem full_hessian_is_sum:
  assumes exact: "rounding deps = exact"
    and run: "cell14 deps env a params p d batches = Inr (acc, H_F)"
    and contract: "list_all (hessians_p_by_p deps env a params p) batches"
  shows "msub exact (H_L acc) (H_outer acc) = Inr H_F \<and> madd exact H_F (H_outer acc) = Inr (H_L acc)"
proof -
  from run obtain acc0 where init: "init_accumulators p d = Inr acc0"
    and loop: "accumulate (loop_body deps env a params) acc0 batches = Inr acc"
    and sub: "msub exact (H_L acc) (H_outer acc) = Inr H_F"
    unfolding cell14_Inr exact by blast
  from init have "hessians_square (nat p) acc0"
    by (auto simp: init_accumulators_Inr hessians_square_def)
  from accumulate_square [OF loop contract this]
  have sq: "hessians_square (nat p) acc" .
  then have "madd exact H_F (H_outer acc) = Inr (H_L acc)"
    by (intro sub_then_add [OF _ _ _ sub]) (simp_all add: hessians_square_def)
  with sub show ?thesis ..
qed

theorem full_hessian_is_sum_witness:
  "rounding toy_collaborators = exact
   \<and> cell14 toy_collaborators (cell12 exact toy_apply ''mse'') toy_apply [] 2 1 [toy_batch1, toy_batch2]
     = Inr (toy_acc, toy_H_F)
   \<and> list_all (hessians_p_by_p toy_collaborators (cell12 exact toy_apply ''mse'') toy_apply [] 2)
       [toy_batch1, toy_batch2]
   \<and> madd exact \<lparr>nrows = 2, ncols = 2, rows = [[1, 2], [2, 0]]\<rparr>
          \<lparr>nrows = 2, ncols = 2, rows = [[2, 0], [0, 3]]\<rparr>
       = Inr \<lparr>nrows = 2, ncols = 2, rows = [[3, 2], [2, 3]]\<rparr>"
proof -
  have rnd: "rounding toy_collaborators = exact"
    by (simp add: toy_collaborators_def)
  have run: "cell14 toy_collaborators (cell12 exact toy_apply ''mse'') toy_apply [] 2 1
               [toy_batch1, toy_batch2] = Inr (toy_acc, toy_H_F)"
    by (rule toy_cell14) (simp_all add: cell12_cases)
  show ?thesis
    using full_hessian_is_sum [OF rnd run toy_contract] rnd run toy_contract
    by (simp add: toy_acc_def toy_H_F_def)
qed

text \<open>
  C5.  In exact arithmetic, if the cell completes on a list of batches, it completes on
  every reordering of the list, with the same covariance, the same full Hessian, the
  same outer-product Hessian and the same functional Hessian, hence with the same
  measured ranks.
\<close>

theorem batch_order_invariance:
  assumes exact: "rounding deps = exact"
    and perm: "mset batches' = mset batches"
    and run: "cell14 deps env a params p d batches = Inr (acc, H_F)"
  shows "\<exists>acc' H_F'. cell14 deps env a params p d batches' = Inr (acc', H_F')
           \<and> cov acc' = cov acc \<and> H_L acc' = H_L acc \<and> H_outer acc' = H_outer acc
           \<and> H_F' = H_F \<and> cell15 deps acc' H_F' = cell15 deps acc H_F"
proof -
  from run obtain acc0 where init: "init_accumulators p d = Inr acc0"
    and loop: "accumulate (loop_body deps env a params) acc0 batches = Inr acc"
    and sub: "msub (rounding deps) (H_L acc) (H_outer acc) = Inr H_F"
    unfolding cell14_Inr by blast
  from accumulate_permute [OF exact perm loop]
  have "cell14 deps env a params p d batches' = Inr (acc, H_F)"
    unfolding cell14_Inr using init sub by blast
  then show ?thesis by blast
qed

theorem batch_order_invariance_witness:
  "rounding toy_collaborators = exact
   \<and> mset [toy_batch2, toy_batch1] = mset [toy_batch1, toy_batch2]
   \<and> cell14 toy_collaborators (cell12 exact toy_apply ''mse'') toy_apply [] 2 1 [toy_batch1, toy_batch2]
       = Inr (toy_acc, toy_H_F)
   \<and> cell14 toy_collaborators (cell12 exact toy_apply ''mse'') toy_apply [] 2 1 [toy_batch2, toy_batch1]
       = Inr (toy_acc, toy_H_F)"
proof -
  have rnd: "rounding toy_collaborators = exact"
    by (simp add: toy_collaborators_def)
  have perm: "mset [toy_batch2, toy_batch1] = mset [toy_batch1, toy_batch2]"
    by (simp add: add.commute)
  have run: "cell14 toy_collaborators (cell12 exact toy_apply ''mse'') toy_apply [] 2 1
               [toy_batch1, toy_batch2] = Inr (toy_acc, toy_H_F)"
    by (rule toy_cell14) (simp_all add: cell12_cases)
  from batch_order_invariance [OF rnd perm run]
  have "cell14 toy_collaborators (cell12 exact toy_apply ''mse'') toy_apply [] 2 1 [toy_batch2, toy_batch1]
       = Inr (toy_acc, toy_H_F)"
    by (cases toy_acc) auto
  with rnd perm run show ?thesis by simp
qed

text \<open>
  In double precision the order matters: one batch with the input \<open>10\<^sup>8\<close> and two with
  the input 1 accumulate the covariance \<open>10\<^sup>1\<^sup>6\<close> when the large one comes first and
  \<open>10\<^sup>1\<^sup>6 + 2\<close> when it comes last.
\<close>

theorem batch_order_invariance_counterexample:
  "mset [unit_batch, unit_batch, big_batch] = mset [big_batch, unit_batch, unit_batch]
   \<and> cell14 double_collaborators (cell12 binary64 toy_apply ''mse'') toy_apply [] 2 1
        [big_batch, unit_batch, unit_batch]
       = Inr (\<lparr>cov = \<lparr>nrows = 1, ncols = 1, rows = [[10000000000000000]]\<rparr>,
               H_L = zeros2, H_outer = zeros2\<rparr>, zeros2)
   \<and> cell14 double_collaborators (cell12 binary64 toy_apply ''mse'') toy_apply [] 2 1
        [unit_batch, unit_batch, big_batch]
       = Inr (\<lparr>cov = \<lparr>nrows = 1, ncols = 1, rows = [[10000000000000002]]\<rparr>,
               H_L = zeros2, H_outer = zeros2\<rparr>, zeros2)
   \<and> \<lparr>nrows = 1, ncols = 1, rows = [[10000000000000000 :: real]]\<rparr>
       \<noteq> \<lparr>nrows = 1, ncols = 1, rows = [[10000000000000002]]\<rparr>"
proof -
  have perm: "mset [unit_batch, unit_batch, big_batch] = mset [big_batch, unit_batch, unit_batch]"
    by simp
  have one: "cell14 double_collaborators (cell12 binary64 toy_apply ''mse'') toy_apply [] 2 1
        [big_batch, unit_batch, unit_batch]
       = Inr (\<lparr>cov = \<lparr>nrows = 1, ncols = 1, rows = [[10000000000000000]]\<rparr>,
               H_L = zeros2, H_outer = zeros2\<rparr>, zeros2)"
    by (simp add: double_eval)
  have two: "cell14 double_collaborators (cell12 binary64 toy_apply ''mse'') toy_apply [] 2 1
        [unit_batch, unit_batch, big_batch]
       = Inr (\<lparr>cov = \<lparr>nrows = 1, ncols = 1, rows = [[10000000000000002]]\<rparr>,
               H_L = zeros2, H_outer = zeros2\<rparr>, zeros2)"
    by (simp add: double_eval)
  from perm one two show ?thesis by simp
qed

text \<open>
  C7.  In a complete run the covariance accumulator starts as the \<open>dim \<times> dim\<close> zero
  matrix and the two Hessian accumulators as \<open>p \<times> p\<close> zero matrices; from one batch to
  the next each of the three changes by the addition of that batch's contribution and in
  no other way; the values after the last batch are the ones the run ends with, from
  which the functional Hessian is subtracted and the ranks are read.
\<close>

theorem accumulator_lifecycle:
  assumes "notebook deps cfg = Inr R"
  shows "\<exists>tr. accumulate_trace
                (loop_body deps (cell12 (rounding deps) (net_apply deps (widths cfg) (classes cfg)) (loss_name cfg))
                   (net_apply deps (widths cfg) (classes cfg)) (run_params R))
                \<lparr>cov = tabulate2 (nat (dim cfg)) (nat (dim cfg)) (\<lambda>i j. 0),
                 H_L = tabulate2 (nat (run_p R)) (nat (run_p R)) (\<lambda>i j. 0),
                 H_outer = tabulate2 (nat (run_p R)) (nat (run_p R)) (\<lambda>i j. 0)\<rparr>
                (run_batches R) = Inr tr
           \<and> 0 \<le> dim cfg \<and> 0 \<le> run_p R
           \<and> length tr = length (run_batches R) + 1
           \<and> hd tr = \<lparr>cov = tabulate2 (nat (dim cfg)) (nat (dim cfg)) (\<lambda>i j. 0),
                       H_L = tabulate2 (nat (run_p R)) (nat (run_p R)) (\<lambda>i j. 0),
                       H_outer = tabulate2 (nat (run_p R)) (nat (run_p R)) (\<lambda>i j. 0)\<rparr>
           \<and> (\<forall>k<length (run_batches R). \<exists>g h out.
                 contributions deps (cell12 (rounding deps) (net_apply deps (widths cfg) (classes cfg)) (loss_name cfg))
                   (net_apply deps (widths cfg) (classes cfg)) (run_params R) (run_batches R ! k)
                   = Inr (g, h, out)
                 \<and> madd (rounding deps) (cov (tr ! k)) g = Inr (cov (tr ! Suc k))
                 \<and> madd (rounding deps) (H_L (tr ! k)) h = Inr (H_L (tr ! Suc k))
                 \<and> madd (rounding deps) (H_outer (tr ! k)) out = Inr (H_outer (tr ! Suc k)))
           \<and> last tr = run_acc R
           \<and> msub (rounding deps) (H_L (run_acc R)) (H_outer (run_acc R)) = Inr (run_H_F R)
           \<and> cell15 deps (run_acc R) (run_H_F R) = Inr (run_ranks R)"
proof -
  let ?a = "net_apply deps (widths cfg) (classes cfg)"
  let ?env = "cell12 (rounding deps) ?a (loss_name cfg)"
  let ?body = "loop_body deps ?env ?a (run_params R)"
  from assms have p: "run_p R = param_count ([dim cfg] @ widths cfg @ [classes cfg])"
    and c14: "cell14 deps ?env ?a (run_params R) (run_p R) (dim cfg) (run_batches R)
                = Inr (run_acc R, run_H_F R)"
    and rk: "cell15 deps (run_acc R) (run_H_F R) = Inr (run_ranks R)"
    unfolding notebook_Inr by auto
  from c14 obtain acc0 where init: "init_accumulators (run_p R) (dim cfg) = Inr acc0"
    and loop: "accumulate ?body acc0 (run_batches R) = Inr (run_acc R)"
    and sub: "msub (rounding deps) (H_L (run_acc R)) (H_outer (run_acc R)) = Inr (run_H_F R)"
    unfolding cell14_Inr by blast
  from init have nonneg: "0 \<le> run_p R" "0 \<le> dim cfg"
    and acc0: "acc0 = \<lparr>cov = tabulate2 (nat (dim cfg)) (nat (dim cfg)) (\<lambda>i j. 0),
                 H_L = tabulate2 (nat (run_p R)) (nat (run_p R)) (\<lambda>i j. 0),
                 H_outer = tabulate2 (nat (run_p R)) (nat (run_p R)) (\<lambda>i j. 0)\<rparr>"
    unfolding init_accumulators_Inr by simp_all
  from accumulate_trace_Inr [OF loop] obtain tr where
    tr: "accumulate_trace ?body acc0 (run_batches R) = Inr tr"
      "length tr = length (run_batches R) + 1" "hd tr = acc0" "last tr = run_acc R"
    and steps: "\<And>k. k < length (run_batches R) \<Longrightarrow> ?body (tr ! k) (run_batches R ! k) = Inr (tr ! Suc k)"
    by blast
  have adds: "\<exists>g h out.
                 contributions deps ?env ?a (run_params R) (run_batches R ! k) = Inr (g, h, out)
                 \<and> madd (rounding deps) (cov (tr ! k)) g = Inr (cov (tr ! Suc k))
                 \<and> madd (rounding deps) (H_L (tr ! k)) h = Inr (H_L (tr ! Suc k))
                 \<and> madd (rounding deps) (H_outer (tr ! k)) out = Inr (H_outer (tr ! Suc k))"
    if k: "k < length (run_batches R)" for k
  proof -
    from loop_body_Inr [OF steps [OF k]] obtain g h out where
      t: "contributions deps ?env ?a (run_params R) (run_batches R ! k) = Inr (g, h, out)"
      by (metis prod_cases3)
    from loop_body_contributions [OF t, of "tr ! k"] steps [OF k]
    have "add_contributions (rounding deps) (tr ! k) (g, h, out) = Inr (tr ! Suc k)" by simp
    with t show ?thesis by (auto simp: add_contributions_Inr)
  qed
  show ?thesis
    using tr nonneg adds sub rk unfolding acc0 by (intro exI [of _ tr]) simp
qed

theorem accumulator_lifecycle_witness:
  "notebook toy_collaborators toy_config =
     Inr (toy_run 2 \<lparr>s = 1, q = 1, pred_F = 1, pred_outer = 2, pred_L = 2\<rparr>)
   \<and> (\<exists>tr. accumulate_trace
              (loop_body toy_collaborators (cell12 exact toy_apply ''mse'') toy_apply [])
              \<lparr>cov = tabulate2 1 1 (\<lambda>i j. 0), H_L = tabulate2 2 2 (\<lambda>i j. 0),
               H_outer = tabulate2 2 2 (\<lambda>i j. 0)\<rparr>
              [toy_batch1, toy_batch2] = Inr tr
            \<and> length tr = 3 \<and> last tr = toy_acc)
   \<and> msub exact (H_L toy_acc) (H_outer toy_acc) = Inr toy_H_F"
proof -
  have net: "net_apply toy_collaborators [] 2 = toy_apply"
    and rnd: "rounding toy_collaborators = exact"
    by (simp_all add: toy_collaborators_def)
  show ?thesis
    using accumulator_lifecycle [OF toy_notebook(1)] toy_notebook(1)
    by (auto simp: toy_config_def toy_run_def net rnd)
qed

text \<open>
  C9.  A loss name other than \<open>mse\<close>, \<open>cross\<close> and \<open>cosh\<close> leaves \<open>loss\<close>, \<open>loss_params\<close>
  and \<open>cross\<close> unbound.  The loop body then gets as far as the covariance statement and
  fails at the next one with a name error for \<open>loss_params\<close>; with at least one batch
  neither the cell nor the whole notebook returns a result, and when the first batch has
  \<open>dim\<close> columns the failure of the cell is that name error.
\<close>

theorem unknown_loss_name_error:
  assumes "name \<noteq> ''mse''" and "name \<noteq> ''cross''" and "name \<noteq> ''cosh''"
  shows "cell12 rnd a name = \<lparr>cross = None, loss = None, loss_params = None\<rparr>
       \<and> loop_body deps (cell12 rnd a name) a params acc b =
           bind_e (matmul (rounding deps) (mat_T (fst b)) (fst b)) (\<lambda>gram.
           bind_e (madd (rounding deps) (cov acc) gram) (\<lambda>cov'. Inl (NameError ''loss_params'')))
       \<and> (\<forall>R. cell14 deps (cell12 rnd a name) a params p d (b # batches) \<noteq> Inr R)
       \<and> (0 \<le> p \<and> 0 \<le> d \<and> ncols (fst b) = nat d \<longrightarrow>
            cell14 deps (cell12 rnd a name) a params p d (b # batches) = Inl (NameError ''loss_params''))
       \<and> (\<forall>R. loss_name cfg = name \<and>
                train_loader deps (n_train cfg) (dim cfg) (classes cfg) (bs cfg) = Inr (b # batches)
                \<longrightarrow> notebook deps cfg \<noteq> Inr R)"
proof -
  have env: "cell12 rnd' a' name = \<lparr>cross = None, loss = None, loss_params = None\<rparr>" for rnd' a'
    using assms by (simp add: cell12_cases unbound_def)
  have body: "loop_body deps (cell12 rnd' a' name) a' params' acc' b =
           bind_e (matmul (rounding deps) (mat_T (fst b)) (fst b)) (\<lambda>gram.
           bind_e (madd (rounding deps) (cov acc') gram) (\<lambda>cov'. Inl (NameError ''loss_params'')))"
    for rnd' a' params' acc'
    by (cases b) (simp add: loop_body_def env lookup_def)
  have never: "cell14 deps (cell12 rnd' a' name) a' params' p' d' (b # batches) \<noteq> Inr R"
    for rnd' a' params' p' d' R
  proof
    assume "cell14 deps (cell12 rnd' a' name) a' params' p' d' (b # batches) = Inr R"
    then obtain acc0 acc1 where "loop_body deps (cell12 rnd' a' name) a' params' acc0 b = Inr acc1"
      by (cases R) (auto simp: cell14_Inr bind_e_eq_Inr)
    then show False
      unfolding body by (auto simp: bind_e_eq_Inr)
  qed
  have exact: "cell14 deps (cell12 rnd a name) a params p d (b # batches) = Inl (NameError ''loss_params'')"
    if "0 \<le> p" "0 \<le> d" "ncols (fst b) = nat d"
  proof -
    have gram: "matmul (rounding deps) (mat_T (fst b)) (fst b) = Inr (tabulate2 (nat d) (nat d)
        (\<lambda>i j. rounding deps (\<Sum>k\<leftarrow>[0..<nrows (fst b)]. entry (mat_T (fst b)) i k * entry (fst b) k j)))"
      using that by (simp add: matmul_def mat_T_def)
    show ?thesis
      using that
      by (simp add: cell14_def init_accumulators_def jnp_zeros_def body gram madd_same_shape)
  qed
  have whole: "notebook deps cfg \<noteq> Inr R"
    if "loss_name cfg = name"
      "train_loader deps (n_train cfg) (dim cfg) (classes cfg) (bs cfg) = Inr (b # batches)" for R
  proof
    assume "notebook deps cfg = Inr R"
    then obtain batches' params' acc' H_F' where
      loader: "train_loader deps (n_train cfg) (dim cfg) (classes cfg) (bs cfg) = Inr batches'"
      and c14: "cell14 deps (cell12 (rounding deps) (net_apply deps (widths cfg) (classes cfg)) (loss_name cfg))
         (net_apply deps (widths cfg) (classes cfg)) params'
         (param_count ([dim cfg] @ widths cfg @ [classes cfg])) (dim cfg) batches'
         = Inr (acc', H_F')"
      unfolding notebook_Inr by blast
    from loader that(2) have "batches' = b # batches" by simp
    with c14 that(1) never show False by simp
  qed
  from env [of rnd a] body [of rnd a params acc] never [of rnd a params p d] exact whole
  show ?thesis by blast
qed

theorem unknown_loss_name_error_witness:
  "''huber'' \<noteq> ''mse'' \<and> ''huber'' \<noteq> ''cross'' \<and> ''huber'' \<noteq> ''cosh''
   \<and> cell12 exact toy_apply ''huber'' = \<lparr>cross = None, loss = None, loss_params = None\<rparr>
   \<and> cell14 toy_collaborators (cell12 exact toy_apply ''huber'') toy_apply [] 2 1 [toy_batch1, toy_batch2]
       = Inl (NameError ''loss_params'')"
proof -
  have n: "''huber'' \<noteq> ''mse''" "''huber'' \<noteq> ''cross''" "''huber'' \<noteq> ''cosh''"
    by simp_all
  have d: "(0::int) \<le> 2 \<and> (0::int) \<le> 1 \<and> ncols (fst toy_batch1) = nat 1"
    by (simp add: toy_batch1_def)
  note err = unknown_loss_name_error [OF n, of exact toy_apply toy_collaborators "[]" toy_acc toy_batch1 2 1
      "[toy_batch2]" toy_config]
  from err have env: "cell12 exact toy_apply ''huber'' = \<lparr>cross = None, loss = None, loss_params = None\<rparr>"
    by blast
  from err d have "cell14 toy_collaborators (cell12 exact toy_apply ''huber'') toy_apply [] 2 1
      [toy_batch1, toy_batch2] = Inl (NameError ''loss_params'')"
    by blast
  with env n show ?thesis by simp
qed

text \<open>
  C10.  In a complete run the parameter count, the batches, the initial parameters, the
  network evaluator, the accumulated matrices, the functional Hessian and the measured
  ranks are all computed from the configured class count; only the final value of
  \<open>classes\<close> and the predictions use the count that is decremented for the loss name
  \<open>cross\<close>.
\<close>

theorem decrement_frame:
  assumes "notebook deps cfg = Inr R"
  shows "run_p R = param_count ([dim cfg] @ widths cfg @ [classes cfg])
       \<and> train_loader deps (n_train cfg) (dim cfg) (classes cfg) (bs cfg) = Inr (run_batches R)
       \<and> init_params deps (widths cfg) (classes cfg) (dim cfg) = Inr (run_params R)
       \<and> cell14 deps (cell12 (rounding deps) (net_apply deps (widths cfg) (classes cfg)) (loss_name cfg))
           (net_apply deps (widths cfg) (classes cfg)) (run_params R)
           (param_count ([dim cfg] @ widths cfg @ [classes cfg])) (dim cfg) (run_batches R)
           = Inr (run_acc R, run_H_F R)
       \<and> cell15 deps (run_acc R) (run_H_F R) = Inr (run_ranks R)
       \<and> run_classes R = (if loss_name cfg = ''cross'' then classes cfg - 1 else classes cfg)
       \<and> bound_predictor (rank_cov (run_ranks R)) (run_classes R) (widths cfg)
           = Inr (run_predictions R)"
  using assms unfolding notebook_Inr cell17_Inr
  by (auto simp: adjust_classes_def)

theorem decrement_frame_witness:
  "notebook toy_collaborators (toy_config\<lparr>loss_name := ''cross''\<rparr>) =
     Inr (toy_run 1 \<lparr>s = 1, q = 1, pred_F = 1, pred_outer = 1, pred_L = 1\<rparr>)
   \<and> run_p (toy_run 1 \<lparr>s = 1, q = 1, pred_F = 1, pred_outer = 1, pred_L = 1\<rparr>) = param_count [1, 2]
   \<and> run_classes (toy_run 1 \<lparr>s = 1, q = 1, pred_F = 1, pred_outer = 1, pred_L = 1\<rparr>) = 2 - 1
   \<and> bound_predictor 1 1 [] = Inr \<lparr>s = 1, q = 1, pred_F = 1, pred_outer = 1, pred_L = 1\<rparr>"
  using decrement_frame [OF toy_notebook(2)] toy_notebook(2)
  by (simp add: toy_config_def toy_run_def)

end
